theory Spec2Isabelle
  imports Main "HOL-Library.Sublist" "HOL-Library.List_Lexorder" "HOL-Library.Product_Lexorder"
begin

section \<open>Strings, dictionaries and the environment\<close>

text \<open>
  A Python \<^verbatim>\<open>str\<close> is a sequence of Unicode code points, so a string is a list of
  natural numbers, one per code point; \<open>length\<close> is Python's \<^verbatim>\<open>len\<close>. ASCII
  literals of the source are written \<open>lit ''...''\<close>; the three delimiters the patterns
  use are 34 (double quote), 61 (equals sign) and 62 (greater-than sign). The Chinese
  literals of the source are given by their code points.
\<close>

type_synonym pystr = "nat list"

definition lit :: "string \<Rightarrow> pystr" where
  "lit s = map of_char s"

text \<open>
  A \<^verbatim>\<open>Dict[str, str]\<close> keeps its keys in insertion order, which the JSON writer
  shows, so a dictionary is an association list. \<open>dict_set\<close> is \<^verbatim>\<open>d[k] = v\<close>:
  an existing key keeps its place, a new key goes to the end.
\<close>

type_synonym pydict = "(pystr \<times> pystr) list"

fun dict_set :: "('k \<times> 'v) list \<Rightarrow> 'k \<Rightarrow> 'v \<Rightarrow> ('k \<times> 'v) list" where
  "dict_set [] k v = [(k, v)]"
| "dict_set ((k', v') # d) k v =
     (if k' = k then (k', v) # d else (k', v') # dict_set d k v)"

definition dict_get :: "pydict \<Rightarrow> pystr \<Rightarrow> pystr option" where
  \<comment> \<open>\<^verbatim>\<open>d.get(k)\<close>: \<open>None\<close> is Python's None\<close>
  "dict_get d k = map_of d k"

definition dict_get_default :: "('k \<times> 'v) list \<Rightarrow> 'k \<Rightarrow> 'v \<Rightarrow> 'v" where
  \<comment> \<open>\<^verbatim>\<open>d.get(k, default)\<close>\<close>
  "dict_get_default d k dflt = (case map_of d k of Some v \<Rightarrow> v | None \<Rightarrow> dflt)"

definition truthy :: "pystr option \<Rightarrow> bool" where
  \<comment> \<open>the truth value of \<^verbatim>\<open>d.get(k)\<close>: None and the empty string are false\<close>
  "truthy x = (case x of None \<Rightarrow> False | Some s \<Rightarrow> s \<noteq> [])"

text \<open>
  The element tree \<^verbatim>\<open>ET.parse\<close> returns. \<open>iter\<close> lists an element and its
  descendants in document order; \<^verbatim>\<open>root.findall('.//T')\<close> keeps the descendants of
  the root (the root itself excluded) whose tag is \<open>T\<close>.
\<close>

datatype element = Element (tag: pystr) (attrib: pydict) (children: "element list")

fun iter :: "element \<Rightarrow> element list" where
  "iter (Element t a cs) = Element t a cs # concat (map iter cs)"

definition et_findall :: "element \<Rightarrow> pystr \<Rightarrow> element list" where
  "et_findall root t = filter (\<lambda>e. tag e = t) (concat (map iter (children root)))"

definition et_get :: "element \<Rightarrow> pystr \<Rightarrow> pystr \<Rightarrow> pystr" where
  \<comment> \<open>\<^verbatim>\<open>path.get(key, default)\<close>\<close>
  "et_get e k dflt = dict_get_default (attrib e) k dflt"

text \<open>
  What the file system and the library calls answer for a path: the outcome of
  \<^verbatim>\<open>ET.parse\<close> (a tree, \<^verbatim>\<open>ET.ParseError\<close>, or any other exception, with its text,
  such as FileNotFoundError), the outcome of opening and reading the file as UTF-8
  text (\<open>Inl\<close> the text of the exception), and the outcome of opening a file for
  writing and writing a text to it (\<open>Some\<close> the text of the exception). The text read
  is what \<^verbatim>\<open>f.read()\<close> returns: the file is opened in text mode, where every line
  end of the file, a carriage return with or without a line feed, has become a line
  feed, so that the text holds no carriage return (code point 13).
\<close>

datatype parse_result = ParseError | OtherError pystr | Parsed element

record env =
  et_parse :: "pystr \<Rightarrow> parse_result"
  read_text :: "pystr \<Rightarrow> pystr + pystr"
  write_text :: "pystr \<Rightarrow> pystr \<Rightarrow> pystr option"

section \<open>The regular expressions of the fallback extractor\<close>

definition is_space :: "nat \<Rightarrow> bool" where
  \<comment> \<open>\<^verbatim>\<open>\s\<close> on str: the Unicode whitespace characters\<close>
  "is_space c = ((9 \<le> c \<and> c \<le> 13) \<or> (28 \<le> c \<and> c \<le> 32) \<or> c = 133 \<or> c = 160
      \<or> c = 5760 \<or> (8192 \<le> c \<and> c \<le> 8202) \<or> c = 8232 \<or> c = 8233 \<or> c = 8239
      \<or> c = 8287 \<or> c = 12288)"

definition ci_eq :: "nat \<Rightarrow> nat \<Rightarrow> bool" where
  \<comment> \<open>\<open>c\<close> matches the pattern character \<open>l\<close> under \<^verbatim>\<open>re.IGNORECASE\<close>; the letters
      of the pattern are p, a, t, h, which only their ASCII capitals fold to\<close>
  "ci_eq c l = (c = l \<or> (97 \<le> l \<and> l \<le> 122 \<and> c + 32 = l))"

definition match_path_tag :: "pystr \<Rightarrow> pystr option" where
  \<comment> \<open>the match of \<^verbatim>\<open><path\s+[^>]*>\<close> (IGNORECASE) at the start of \<open>s\<close>: the
      first character after the tag name is whitespace and the match ends at the
      first greater-than sign\<close>
  "match_path_tag s =
     (let rest = drop 5 s in
      if list_all2 ci_eq (take 5 s) (lit ''<path'') \<and> rest \<noteq> [] \<and> is_space (hd rest)
         \<and> 62 \<in> set rest
      then Some (take 5 s @ takeWhile (\<lambda>c. c \<noteq> 62) rest @ [62])
      else None)"

lemma match_path_tag_nonempty: "match_path_tag s = Some m \<Longrightarrow> m \<noteq> []"
  by (auto simp: match_path_tag_def Let_def split: if_splits)

function re_findall_path :: "pystr \<Rightarrow> pystr list" where
  \<comment> \<open>\<^verbatim>\<open>re.findall(path_pattern, content, re.IGNORECASE)\<close>: the matches from left to
      right, the scan resuming after each match\<close>
  "re_findall_path s =
     (if s = [] then []
      else case match_path_tag s of
             Some m \<Rightarrow> m # re_findall_path (drop (length m) s)
           | None \<Rightarrow> re_findall_path (tl s))"
  by pat_completeness auto
termination
proof (relation "measure length")
  show "wf (measure length)" by simp
next
  fix s :: pystr and m
  assume "s \<noteq> []" "match_path_tag s = Some m"
  then show "(drop (length m) s, s) \<in> measure length"
    using match_path_tag_nonempty [of s m] by simp
next
  fix s :: pystr
  assume "s \<noteq> []"
  then show "(tl s, s) \<in> measure length" by (cases s) simp_all
qed

declare re_findall_path.simps [simp del]

definition quoted_value :: "pystr \<Rightarrow> pystr option" where
  \<comment> \<open>\<^verbatim>\<open>([^"]*)"\<close> at the start of \<open>s\<close>: the text up to the next double quote\<close>
  "quoted_value s = (if 34 \<in> set s then Some (takeWhile (\<lambda>c. c \<noteq> 34) s) else None)"

fun re_search_attr :: "pystr \<Rightarrow> pystr \<Rightarrow> pystr option" where
  \<comment> \<open>group 1 of \<^verbatim>\<open>re.search(name + '="([^"]*)"', s)\<close>: the leftmost position where
      the pattern matches\<close>
  "re_search_attr name [] = None"
| "re_search_attr name (c # cs) =
     (if prefix (name @ [61, 34]) (c # cs)
      then (case quoted_value (drop (length name + 2) (c # cs)) of
              Some v \<Rightarrow> Some v
            | None \<Rightarrow> re_search_attr name cs)
      else re_search_attr name cs)"

section \<open>The two extractors\<close>

definition svg_country_info :: "element \<Rightarrow> pydict" where
  \<comment> \<open>the body of the loop of \<^verbatim>\<open>extract_countries_from_svg\<close>, up to the filter\<close>
  "svg_country_info path =
     (let ci = [];
          ci = dict_set ci (lit ''id'') (et_get path (lit ''id'') []);
          ci = dict_set ci (lit ''name_zh'')
                 (et_get path (lit ''data-name_zht'') (et_get path (lit ''data-name_zh'') []));
          ci = dict_set ci (lit ''name_en'') (et_get path (lit ''data-name_en'') []);
          ci = dict_set ci (lit ''formal_en'') (et_get path (lit ''data-formal_en'') []);
          ci = dict_set ci (lit ''type'') (et_get path (lit ''data-type'') []);
          ci = dict_set ci (lit ''sovereignty'') (et_get path (lit ''data-sovereignt'') [])
      in if dict_get_default ci (lit ''name_zh'') [] = []
            \<and> dict_get_default ci (lit ''id'') [] \<noteq> []
         then dict_set ci (lit ''name_zh'') (dict_get_default ci (lit ''id'') [])
         else ci)"

fun svg_loop :: "element list \<Rightarrow> pydict list \<Rightarrow> pydict list" where
  "svg_loop [] countries = countries"
| "svg_loop (path # paths) countries =
     (let ci = svg_country_info path in
      svg_loop paths
        (if truthy (dict_get ci (lit ''name_zh'')) \<or> truthy (dict_get ci (lit ''name_en''))
         then countries @ [ci] else countries))"

definition svg_paths :: "element \<Rightarrow> element list" where
  \<comment> \<open>the path elements, looked up without and then with the SVG namespace\<close>
  "svg_paths root =
     (let paths = et_findall root (lit ''path'')
      in if paths = [] then et_findall root (lit ''{http://www.w3.org/2000/svg}path'')
         else paths)"

definition set_if_match :: "pydict \<Rightarrow> pystr \<Rightarrow> pystr option \<Rightarrow> pydict" where
  \<comment> \<open>\<^verbatim>\<open>if m: country_info[key] = m.group(1)\<close>\<close>
  "set_if_match ci key m = (case m of Some v \<Rightarrow> dict_set ci key v | None \<Rightarrow> ci)"

definition regex_country_info :: "pystr \<Rightarrow> pydict" where
  \<comment> \<open>the body of the loop of \<^verbatim>\<open>extract_countries_with_regex\<close>, up to the filter\<close>
  "regex_country_info path_tag =
     (let ci = [];
          ci = set_if_match ci (lit ''id'') (re_search_attr (lit ''id'') path_tag);
          ci = (case re_search_attr (lit ''data-name_zht'') path_tag of
                  Some v \<Rightarrow> dict_set ci (lit ''name_zh'') v
                | None \<Rightarrow>
                   (case re_search_attr (lit ''data-name_zh'') path_tag of
                      Some v \<Rightarrow> dict_set ci (lit ''name_zh'') v
                    | None \<Rightarrow>
                       if truthy (dict_get ci (lit ''id''))
                       then dict_set ci (lit ''name_zh'') (dict_get_default ci (lit ''id'') [])
                       else ci));
          ci = set_if_match ci (lit ''name_en'') (re_search_attr (lit ''data-name_en'') path_tag);
          ci = set_if_match ci (lit ''formal_en'')
                 (re_search_attr (lit ''data-formal_en'') path_tag);
          ci = set_if_match ci (lit ''type'') (re_search_attr (lit ''data-type'') path_tag);
          ci = set_if_match ci (lit ''sovereignty'')
                 (re_search_attr (lit ''data-sovereignt'') path_tag)
      in ci)"

fun regex_loop :: "pystr list \<Rightarrow> pydict list \<Rightarrow> pydict list" where
  "regex_loop [] countries = countries"
| "regex_loop (path_tag # paths) countries =
     (let ci = regex_country_info path_tag in
      regex_loop paths
        (if truthy (dict_get ci (lit ''name_zh'')) \<or> truthy (dict_get ci (lit ''name_en''))
         then countries @ [ci] else countries))"

definition msg_read_failed :: pystr where
  \<comment> \<open>the text before \<^verbatim>\<open>{e}\<close> in the message of a failed read\<close>
  "msg_read_failed = [35835, 21462, 25991, 20214, 22833, 36133, 58, 32]"

definition msg_xml_failed :: pystr where
  \<comment> \<open>the line announcing that XML parsing failed and the regular expressions are tried\<close>
  "msg_xml_failed = lit ''XML '' @ [35299, 26512, 22833, 36133, 65292, 23581, 35797, 20351,
     29992, 27491, 21017, 34920, 36798, 24335] @ lit ''...''"

text \<open>
  Each function returns the lines it printed together with its value. An exception that
  \<^verbatim>\<open>extract_countries_from_svg\<close> does not catch is the result \<open>Inl\<close>, with the
  exception's text.
\<close>

definition extract_countries_with_regex :: "env \<Rightarrow> pystr \<Rightarrow> pystr list \<times> pydict list" where
  "extract_countries_with_regex e file_path =
     (case read_text e file_path of
        Inr content \<Rightarrow> ([], regex_loop (re_findall_path content) [])
      | Inl err \<Rightarrow> ([msg_read_failed @ err], []))"

definition extract_countries_from_svg ::
  "env \<Rightarrow> pystr \<Rightarrow> pystr + (pystr list \<times> pydict list)" where
  "extract_countries_from_svg e file_path =
     (case et_parse e file_path of
        Parsed root \<Rightarrow> Inr ([], svg_loop (svg_paths root) [])
      | ParseError \<Rightarrow>
          (let (out, countries) = extract_countries_with_regex e file_path
           in Inr (msg_xml_failed # out, countries))
      | OtherError err \<Rightarrow> Inl err)"

section \<open>The serializers\<close>

text \<open>
  \<^verbatim>\<open>json.dump(countries, f, ensure_ascii=False, indent=2)\<close> on a list of dictionaries
  of strings. A string is written between double quotes; the double quote, the
  backslash and the code points below 32 are escaped, every other code point is written
  as it is. The list and the dictionaries are written item by item, the first item
  after the opening bracket and a new line, each later item after a comma and a new
  line, indented by two spaces per level.
\<close>

definition hex_digit :: "nat \<Rightarrow> nat" where
  "hex_digit d = (if d < 10 then 48 + d else 87 + d)"

definition json_escape_char :: "nat \<Rightarrow> pystr" where
  "json_escape_char c =
     (if c = 34 then [92, 34]
      else if c = 92 then [92, 92]
      else if c = 10 then [92, 110]
      else if c = 13 then [92, 114]
      else if c = 9 then [92, 116]
      else if c = 8 then [92, 98]
      else if c = 12 then [92, 102]
      else if c < 32 then [92, 117, 48, 48, hex_digit (c div 16), hex_digit (c mod 16)]
      else [c])"

definition json_string :: "pystr \<Rightarrow> pystr" where
  "json_string s = 34 # concat (map json_escape_char s) @ [34]"

definition newline_indent :: "nat \<Rightarrow> pystr" where
  "newline_indent level = 10 # replicate (2 * level) 32"

fun json_dict_items :: "nat \<Rightarrow> bool \<Rightarrow> pydict \<Rightarrow> pystr" where
  "json_dict_items level first [] = []"
| "json_dict_items level first ((k, v) # items) =
     (if first then [] else 44 # newline_indent level)
     @ json_string k @ [58, 32] @ json_string v
     @ json_dict_items level False items"

definition json_dict :: "nat \<Rightarrow> pydict \<Rightarrow> pystr" where
  "json_dict level dct =
     (if dct = [] then [123, 125]
      else [123] @ newline_indent (level + 1) @ json_dict_items (level + 1) True dct
           @ newline_indent level @ [125])"

fun json_list_items :: "nat \<Rightarrow> bool \<Rightarrow> pydict list \<Rightarrow> pystr" where
  "json_list_items level first [] = []"
| "json_list_items level first (dct # items) =
     (if first then [] else 44 # newline_indent level)
     @ json_dict level dct
     @ json_list_items level False items"

definition json_dumps :: "pydict list \<Rightarrow> pystr" where
  "json_dumps lst =
     (if lst = [] then [91, 93]
      else [91] @ newline_indent 1 @ json_list_items 1 True lst @ newline_indent 0 @ [93])"

definition msg_saved :: pystr where
  \<comment> \<open>the text before \<^verbatim>\<open>{output_file}\<close> in the message of a successful save\<close>
  "msg_saved = [22269, 23478, 20449, 24687, 24050, 20445, 23384, 21040, 32]"

definition msg_save_failed :: pystr where
  "msg_save_failed = [20445, 23384, 25991, 20214, 22833, 36133, 58, 32]"

definition msg_csv_failed :: pystr where
  "msg_csv_failed = [20445, 23384, 32] @ lit ''CSV '' @ [25991, 20214, 22833, 36133, 58, 32]"

text \<open>
  A serializer returns the lines it printed and the files it wrote, as pairs of a path
  and the text written. When opening or writing raises, the exception is caught and
  reported, and the model says nothing about the file.
\<close>

definition save_to_json ::
  "env \<Rightarrow> pydict list \<Rightarrow> pystr \<Rightarrow> pystr list \<times> (pystr \<times> pystr) list" where
  "save_to_json e countries output_file =
     (case write_text e output_file (json_dumps countries) of
        None \<Rightarrow> ([msg_saved @ output_file], [(output_file, json_dumps countries)])
      | Some err \<Rightarrow> ([msg_save_failed @ err], []))"

text \<open>
  \<^verbatim>\<open>csv.DictWriter\<close> with the default dialect: cells are joined by commas, a line
  ends with carriage return and line feed, and a cell holding a comma, a double quote,
  a carriage return or a line feed is written between double quotes, its double quotes
  doubled (rows of two cells or more). The encoding \<^verbatim>\<open>utf-8-sig\<close> starts the
  file with the byte order mark, code point 65279.
\<close>

definition csv_fields :: "pystr list" where
  "csv_fields = [lit ''id'', lit ''name_zh'', lit ''name_en'', lit ''formal_en'', lit ''type'',
                 lit ''sovereignty'']"

definition csv_cell :: "pystr \<Rightarrow> pystr" where
  "csv_cell s =
     (if list_ex (\<lambda>c. c = 44 \<or> c = 34 \<or> c = 13 \<or> c = 10) s
      then 34 # concat (map (\<lambda>c. if c = 34 then [34, 34] else [c]) s) @ [34]
      else s)"

fun join :: "pystr \<Rightarrow> pystr list \<Rightarrow> pystr" where
  "join sep [] = []"
| "join sep [x] = x"
| "join sep (x # y # ys) = x @ sep @ join sep (y # ys)"

definition csv_line :: "pystr list \<Rightarrow> pystr" where
  "csv_line cells = join [44] (map csv_cell cells) @ [13, 10]"

definition dict_writer_row :: "pystr list \<Rightarrow> pydict \<Rightarrow> pystr" where
  \<comment> \<open>\<^verbatim>\<open>writer.writerow(rowdict)\<close>: the cells are \<^verbatim>\<open>rowdict.get(key, '')\<close> for the
      writer's field names, in their order\<close>
  "dict_writer_row fieldnames rowdict =
     csv_line (map (\<lambda>key. dict_get_default rowdict key []) fieldnames)"

definition csv_row :: "pydict \<Rightarrow> pydict" where
  \<comment> \<open>\<^verbatim>\<open>{field: country.get(field, '') for field in fields}\<close>\<close>
  "csv_row country = map (\<lambda>field. (field, dict_get_default country field [])) csv_fields"

fun csv_write_rows :: "pydict list \<Rightarrow> pystr \<Rightarrow> pystr" where
  "csv_write_rows [] out = out"
| "csv_write_rows (country # countries) out =
     csv_write_rows countries (out @ dict_writer_row csv_fields (csv_row country))"

definition csv_text :: "pydict list \<Rightarrow> pystr" where
  \<comment> \<open>the text written: the mark, \<^verbatim>\<open>writeheader()\<close>, then the loop\<close>
  "csv_text countries = csv_write_rows countries ([65279] @ csv_line csv_fields)"

definition save_to_csv ::
  "env \<Rightarrow> pydict list \<Rightarrow> pystr \<Rightarrow> pystr list \<times> (pystr \<times> pystr) list" where
  "save_to_csv e countries output_file =
     (case write_text e output_file (csv_text countries) of
        None \<Rightarrow> ([msg_saved @ output_file], [(output_file, csv_text countries)])
      | Some err \<Rightarrow> ([msg_csv_failed @ err], []))"

section \<open>The reporter and the main program\<close>

fun str_nat :: "nat \<Rightarrow> pystr" where
  "str_nat n = (if n < 10 then [48 + n] else str_nat (n div 10) @ [48 + n mod 10])"

declare str_nat.simps [simp del]

definition str_int :: "int \<Rightarrow> pystr" where
  "str_int i = (if i < 0 then 45 # str_nat (nat (- i)) else str_nat (nat i))"

definition ljust :: "nat \<Rightarrow> pystr \<Rightarrow> pystr" where
  \<comment> \<open>the format \<^verbatim>\<open>:<w\<close>: padded with spaces on the right up to \<open>w\<close> code points\<close>
  "ljust w s = s @ replicate (w - length s) 32"

definition slice_to :: "'a list \<Rightarrow> int \<Rightarrow> 'a list" where
  \<comment> \<open>\<^verbatim>\<open>xs[:n]\<close>; a negative \<open>n\<close> counts from the end\<close>
  "slice_to xs n = (if n < 0 then take (nat (int (length xs) + n)) xs else take (nat n) xs)"

definition msg_found :: "nat \<Rightarrow> pystr" where
  "msg_found n = [25214, 21040, 32] @ str_nat n @ [32, 20010, 22269, 23478, 47, 22320, 21306]"

definition table_header :: pystr where
  "table_header = ljust 4 [24207, 21495] @ [32] @ ljust 12 [20013, 25991, 21517] @ [32]
     @ ljust 20 [33521, 25991, 21517] @ [32] @ ljust 15 [31867, 22411] @ [32]
     @ ljust 20 [20027, 26435]"

definition msg_omitted :: "int \<Rightarrow> pystr" where
  "msg_omitted k = lit ''... '' @ [36824, 26377, 32] @ str_int k
     @ [32, 20010, 22269, 23478, 26410, 26174, 31034]"

definition table_row :: "nat \<Rightarrow> pydict \<Rightarrow> pystr" where
  "table_row i country =
     (let name_zh = take 10 (dict_get_default country (lit ''name_zh'') []);
          name_en = take 18 (dict_get_default country (lit ''name_en'') []);
          country_type = take 13 (dict_get_default country (lit ''type'') []);
          sovereignty = take 18 (dict_get_default country (lit ''sovereignty'') [])
      in ljust 4 (str_nat i) @ [32] @ ljust 12 name_zh @ [32] @ ljust 20 name_en @ [32]
         @ ljust 15 country_type @ [32] @ ljust 20 sovereignty)"

fun table_rows :: "nat \<Rightarrow> pydict list \<Rightarrow> pystr list" where
  \<comment> \<open>the loop over \<^verbatim>\<open>enumerate(display_countries, i)\<close>\<close>
  "table_rows i [] = []"
| "table_rows i (country # countries) = table_row i country # table_rows (Suc i) countries"

definition limit_true :: "int option \<Rightarrow> bool" where
  \<comment> \<open>the truth value of \<^verbatim>\<open>limit\<close>: None and 0 are false\<close>
  "limit_true limit = (case limit of None \<Rightarrow> False | Some n \<Rightarrow> n \<noteq> 0)"

definition print_countries_table :: "pydict list \<Rightarrow> int option \<Rightarrow> pystr list" where
  "print_countries_table countries limit =
     (let display_countries =
            (case limit of
               Some n \<Rightarrow> if limit_true limit then slice_to countries n else countries
             | None \<Rightarrow> countries)
      in [msg_found (length countries), replicate 120 45, table_header, replicate 120 45]
         @ table_rows 1 display_countries
         @ (case limit of
              Some n \<Rightarrow>
                if limit_true limit \<and> int (length countries) > n
                then [msg_omitted (int (length countries) - n)] else []
            | None \<Rightarrow> []))"

definition unknown_label :: pystr where
  \<comment> \<open>the two code points of the label for an unknown type\<close>
  "unknown_label = [26410, 30693]"

fun type_counts_loop :: "pydict list \<Rightarrow> (pystr \<times> nat) list \<Rightarrow> (pystr \<times> nat) list" where
  "type_counts_loop [] type_counts = type_counts"
| "type_counts_loop (country # countries) type_counts =
     (let country_type = dict_get_default country (lit ''type'') unknown_label
      in type_counts_loop countries
           (dict_set type_counts country_type (dict_get_default type_counts country_type 0 + 1)))"

definition type_line :: "pystr \<times> nat \<Rightarrow> pystr" where
  "type_line item = (case item of (country_type, count) \<Rightarrow>
     [32, 32] @ country_type @ [58, 32] @ str_nat count @ [20010])"

definition type_report :: "pydict list \<Rightarrow> pystr list" where
  \<comment> \<open>the lines printed for \<^verbatim>\<open>sorted(type_counts.items())\<close>: pairs are compared by
      their label first, and labels code point by code point\<close>
  "type_report countries = map type_line (sort (type_counts_loop countries []))"

fun contains :: "pystr \<Rightarrow> pystr \<Rightarrow> bool" where
  \<comment> \<open>\<^verbatim>\<open>term in s\<close>\<close>
  "contains t [] = (t = [])"
| "contains t (c # cs) = (prefix t (c # cs) \<or> contains t cs)"

definition str_opt :: "pystr option \<Rightarrow> pystr" where
  \<comment> \<open>how an f-string shows the result of \<^verbatim>\<open>d.get(k)\<close>\<close>
  "str_opt x = (case x of None \<Rightarrow> lit ''None'' | Some s \<Rightarrow> s)"

definition search_terms :: "pystr list" where
  "search_terms = [[20013, 22269], [32654, 22269], [26085, 26412],
                   [21360, 24230, 23612, 35199, 20122]]"

definition search_line :: "pydict list \<Rightarrow> pystr \<Rightarrow> pystr" where
  "search_line countries term =
     (case filter (\<lambda>c. contains term (dict_get_default c (lit ''name_zh'') [])
                       \<or> contains term (dict_get_default c (lit ''name_en'') [])) countries of
        [] \<Rightarrow> [32, 32, 26410, 25214, 21040, 32, 39] @ term @ [39]
      | found # _ \<Rightarrow>
          [32, 32, 25214, 21040, 32, 39] @ term @ [39, 58, 32]
          @ str_opt (dict_get found (lit ''name_zh'')) @ [32, 40]
          @ str_opt (dict_get found (lit ''name_en'')) @ [41])"

definition svg_file_path :: pystr where
  "svg_file_path = [19990, 30028, 22320, 22270] @ lit ''.svg''"

definition msg_extracting :: pystr where
  "msg_extracting = [27491, 22312, 20174, 32] @ lit ''SVG '' @ [25991, 20214, 20013, 25552,
     21462, 22269, 23478, 20449, 24687] @ lit ''...''"

definition msg_success :: "nat \<Rightarrow> pystr" where
  "msg_success n = [10, 25104, 21151, 25552, 21462, 20102, 32] @ str_nat n
     @ [32, 20010, 22269, 23478, 47, 22320, 21306, 30340, 20449, 24687]"

definition msg_first_ten :: pystr where
  "msg_first_ten = [10, 21069, 32, 49, 48, 32, 20010, 22269, 23478, 47, 22320, 21306, 20449,
     24687, 58]"

definition msg_type_counts :: pystr where
  "msg_type_counts = [10, 22269, 23478, 47, 22320, 21306, 31867, 22411, 32479, 35745, 58]"

definition msg_search :: pystr where
  "msg_search = [10, 26597, 25214, 22269, 23478, 31034, 20363, 58]"

definition msg_nothing_found :: pystr where
  "msg_nothing_found = [26410, 25214, 21040, 20219, 20309, 22269, 23478, 20449, 24687, 65292,
     35831, 26816, 26597, 32] @ lit ''SVG '' @ [25991, 20214, 26684, 24335]"

text \<open>
  The program ends normally when \<^verbatim>\<open>main\<close> returns, and with a traceback when an
  exception leaves it. The result is the texts printed, one per call of print, the files
  written, and how the program ended.
\<close>

datatype exit_status = ExitNormal | ExitUncaught pystr

definition main :: "env \<Rightarrow> pystr list \<times> (pystr \<times> pystr) list \<times> exit_status" where
  "main e =
     (case extract_countries_from_svg e svg_file_path of
        Inl err \<Rightarrow> ([msg_extracting], [], ExitUncaught err)
      | Inr (out, countries) \<Rightarrow>
          if countries \<noteq> [] then
            (let (out_json, files_json) = save_to_json e countries (lit ''countries.json'');
                 (out_csv, files_csv) = save_to_csv e countries (lit ''countries.csv'')
             in ([msg_extracting] @ out @ [msg_success (length countries), msg_first_ten]
                 @ print_countries_table countries (Some 10)
                 @ out_json @ out_csv
                 @ [msg_type_counts] @ type_report countries
                 @ [msg_search] @ map (search_line countries) search_terms,
                 files_json @ files_csv, ExitNormal))
          else ([msg_extracting] @ out @ [msg_nothing_found], [], ExitNormal))"

section \<open>Reading the structured file back\<close>

text \<open>
  A JSON reader for the documents the claims are about: a list of objects whose values
  are strings. It reads the text one code point at a time. Whitespace is skipped
  between tokens; inside a string a backslash starts an escape (the two-character
  escapes of JSON and \<^verbatim>\<open>\uXXXX\<close> with four hexadecimal digits), and a code point
  below 32 is refused, as Python's decoder does. A key that comes twice keeps its first
  place and its last value. Any other document (another shape of value, an escape that
  gives a surrogate) is outside the reader, which answers \<open>None\<close>.
\<close>

definition is_ws :: "nat \<Rightarrow> bool" where
  "is_ws c = (c = 32 \<or> c = 9 \<or> c = 10 \<or> c = 13)"

definition hex_value :: "nat \<Rightarrow> nat option" where
  "hex_value c =
     (if 48 \<le> c \<and> c \<le> 57 then Some (c - 48)
      else if 97 \<le> c \<and> c \<le> 102 then Some (c - 87)
      else if 65 \<le> c \<and> c \<le> 70 then Some (c - 55)
      else None)"

datatype jstr_state = Plain | Esc | Hex nat nat

datatype str_step = StrEnd | StrMore pystr jstr_state | StrError

fun string_step :: "pystr \<Rightarrow> jstr_state \<Rightarrow> nat \<Rightarrow> str_step" where
  "string_step acc Plain c =
     (if c = 34 then StrEnd
      else if c = 92 then StrMore acc Esc
      else if c < 32 then StrError
      else StrMore (acc @ [c]) Plain)"
| "string_step acc Esc c =
     (if c = 34 \<or> c = 92 \<or> c = 47 then StrMore (acc @ [c]) Plain
      else if c = 98 then StrMore (acc @ [8]) Plain
      else if c = 102 then StrMore (acc @ [12]) Plain
      else if c = 110 then StrMore (acc @ [10]) Plain
      else if c = 114 then StrMore (acc @ [13]) Plain
      else if c = 116 then StrMore (acc @ [9]) Plain
      else if c = 117 then StrMore acc (Hex 4 0)
      else StrError)"
| "string_step acc (Hex n v) c =
     (case hex_value c of
        None \<Rightarrow> StrError
      | Some d \<Rightarrow>
          if n \<le> 1
          then (if 55296 \<le> v * 16 + d \<and> v * 16 + d \<le> 57343 then StrError
                else StrMore (acc @ [v * 16 + d]) Plain)
          else StrMore acc (Hex (n - 1) (v * 16 + d)))"

datatype jstate =
    J_Start
  | J_ListOpen
  | J_BeforeDict "pydict list"
  | J_DictOpen "pydict list"
  | J_BeforeKey "pydict list" pydict
  | J_InKey "pydict list" pydict pystr jstr_state
  | J_AfterKey "pydict list" pydict pystr
  | J_BeforeValue "pydict list" pydict pystr
  | J_InValue "pydict list" pydict pystr pystr jstr_state
  | J_AfterValue "pydict list" pydict
  | J_AfterDict "pydict list"
  | J_Done "pydict list"

fun jstep :: "jstate \<Rightarrow> nat \<Rightarrow> jstate option" where
  "jstep J_Start c =
     (if is_ws c then Some J_Start else if c = 91 then Some J_ListOpen else None)"
| "jstep J_ListOpen c =
     (if is_ws c then Some J_ListOpen
      else if c = 93 then Some (J_Done [])
      else if c = 123 then Some (J_DictOpen [])
      else None)"
| "jstep (J_BeforeDict recs) c =
     (if is_ws c then Some (J_BeforeDict recs)
      else if c = 123 then Some (J_DictOpen recs)
      else None)"
| "jstep (J_DictOpen recs) c =
     (if is_ws c then Some (J_DictOpen recs)
      else if c = 125 then Some (J_AfterDict (recs @ [[]]))
      else if c = 34 then Some (J_InKey recs [] [] Plain)
      else None)"
| "jstep (J_BeforeKey recs d) c =
     (if is_ws c then Some (J_BeforeKey recs d)
      else if c = 34 then Some (J_InKey recs d [] Plain)
      else None)"
| "jstep (J_InKey recs d acc st) c =
     (case string_step acc st c of
        StrEnd \<Rightarrow> Some (J_AfterKey recs d acc)
      | StrMore acc' st' \<Rightarrow> Some (J_InKey recs d acc' st')
      | StrError \<Rightarrow> None)"
| "jstep (J_AfterKey recs d k) c =
     (if is_ws c then Some (J_AfterKey recs d k)
      else if c = 58 then Some (J_BeforeValue recs d k)
      else None)"
| "jstep (J_BeforeValue recs d k) c =
     (if is_ws c then Some (J_BeforeValue recs d k)
      else if c = 34 then Some (J_InValue recs d k [] Plain)
      else None)"
| "jstep (J_InValue recs d k acc st) c =
     (case string_step acc st c of
        StrEnd \<Rightarrow> Some (J_AfterValue recs (dict_set d k acc))
      | StrMore acc' st' \<Rightarrow> Some (J_InValue recs d k acc' st')
      | StrError \<Rightarrow> None)"
| "jstep (J_AfterValue recs d) c =
     (if is_ws c then Some (J_AfterValue recs d)
      else if c = 44 then Some (J_BeforeKey recs d)
      else if c = 125 then Some (J_AfterDict (recs @ [d]))
      else None)"
| "jstep (J_AfterDict recs) c =
     (if is_ws c then Some (J_AfterDict recs)
      else if c = 44 then Some (J_BeforeDict recs)
      else if c = 93 then Some (J_Done recs)
      else None)"
| "jstep (J_Done recs) c = (if is_ws c then Some (J_Done recs) else None)"

fun jrun :: "jstate \<Rightarrow> pystr \<Rightarrow> jstate option" where
  "jrun s [] = Some s"
| "jrun s (c # cs) = (case jstep s c of None \<Rightarrow> None | Some s' \<Rightarrow> jrun s' cs)"

definition json_loads :: "pystr \<Rightarrow> pydict list option" where
  "json_loads text = (case jrun J_Start text of Some (J_Done recs) \<Rightarrow> Some recs | _ \<Rightarrow> None)"

text \<open>
  Three notions for the proofs about the reader: a state that whitespace leaves
  unchanged, the run of \<open>string_step\<close> over code points that do not end the string,
  and the dictionary the reader builds from a list of pairs.
\<close>

definition ws_loop :: "jstate \<Rightarrow> bool" where
  "ws_loop s = (jstep s 10 = Some s \<and> jstep s 32 = Some s)"

fun str_run :: "pystr \<Rightarrow> jstr_state \<Rightarrow> pystr \<Rightarrow> (pystr \<times> jstr_state) option" where
  "str_run acc st [] = Some (acc, st)"
| "str_run acc st (c # cs) =
     (case string_step acc st c of StrMore acc' st' \<Rightarrow> str_run acc' st' cs | _ \<Rightarrow> None)"

definition rebuild :: "pydict \<Rightarrow> pydict" where
  "rebuild items = foldl (\<lambda>d (k, v). dict_set d k v) [] items"

section \<open>Notions of the specification\<close>

definition has_name :: "pydict \<Rightarrow> bool" where
  \<comment> \<open>the record's local name or its English name is a non-empty string\<close>
  "has_name r = (dict_get_default r (lit ''name_zh'') [] \<noteq> []
                 \<or> dict_get_default r (lit ''name_en'') [] \<noteq> [])"

definition fallback_chain :: "pystr option \<Rightarrow> pystr option \<Rightarrow> pystr \<Rightarrow> pystr" where
  \<comment> \<open>the chain of the specification: the first of the two local-name attributes that
      is there, and the identifier when neither is\<close>
  "fallback_chain zht zh ident =
     (case zht of Some v \<Rightarrow> v | None \<Rightarrow> (case zh of Some v \<Rightarrow> v | None \<Rightarrow> ident))"

definition selected_nonempty :: "pystr option \<Rightarrow> pystr option \<Rightarrow> bool" where
  \<comment> \<open>the local-name attribute the chain selects, if there is one, is not empty\<close>
  "selected_nonempty zht zh =
     (case zht of Some v \<Rightarrow> v \<noteq> []
      | None \<Rightarrow> (case zh of Some v \<Rightarrow> v \<noteq> [] | None \<Rightarrow> True))"

section \<open>Renderings of attribute data\<close>

text \<open>
  The attribute data of a document are the attribute lists of the path nodes the
  document extractor finds in it, in document order. The malformed rendering of
  attribute data is the text in which every node is an opening tag
  \<^verbatim>\<open><path k1="v1" k2="v2">\<close> that is never closed, names and values written as they
  are, after an opening \<^verbatim>\<open><svg>\<close> that is never closed either. The simplest
  document with given attribute data has the nodes as the path children of one root.
\<close>

definition wellformed_doc :: "pydict list \<Rightarrow> element" where
  "wellformed_doc nodes =
     Element (lit ''svg'') [] (map (\<lambda>attrs. Element (lit ''path'') attrs []) nodes)"

definition render_attr :: "pystr \<times> pystr \<Rightarrow> pystr" where
  "render_attr kv = (case kv of (k, v) \<Rightarrow> [32] @ k @ [61, 34] @ v @ [34])"

definition render_tag :: "pydict \<Rightarrow> pystr" where
  "render_tag attrs = lit ''<path'' @ concat (map render_attr attrs) @ [62]"

definition malformed_text :: "pydict list \<Rightarrow> pystr" where
  "malformed_text nodes = lit ''<svg>'' @ concat (map render_tag nodes)"

definition closed_tag :: "pydict \<Rightarrow> pystr" where
  "closed_tag attrs = lit ''<path'' @ concat (map render_attr attrs) @ lit ''/>''"

definition wellformed_text :: "pydict list \<Rightarrow> pystr" where
  \<comment> \<open>the well-formed document as a text, every tag closed\<close>
  "wellformed_text nodes = lit ''<svg>'' @ concat (map closed_tag nodes) @ lit ''</svg>''"

definition attr_names :: "pystr list" where
  \<comment> \<open>the seven attributes the extractors read\<close>
  "attr_names = [lit ''id'', lit ''data-name_zht'', lit ''data-name_zh'', lit ''data-name_en'',
                 lit ''data-formal_en'', lit ''data-type'', lit ''data-sovereignt'']"

definition plain_attr :: "pystr \<times> pystr \<Rightarrow> bool" where
  \<comment> \<open>an attribute the text rendering shows as it is and the patterns read as it is:
      no equals sign, greater-than sign or carriage return in the name, no double quote,
      greater-than sign or carriage return in the value, no equals sign at the end of
      the value, and a name that ends with the name of one of the seven attributes is
      that name\<close>
  "plain_attr kv = (case kv of (k, v) \<Rightarrow>
     61 \<notin> set k \<and> 62 \<notin> set k \<and> 13 \<notin> set k
     \<and> 34 \<notin> set v \<and> 62 \<notin> set v \<and> 13 \<notin> set v \<and> \<not> suffix [61] v
     \<and> list_all (\<lambda>n. suffix n k \<longrightarrow> k = n) attr_names)"

definition local_name_plain :: "pydict \<Rightarrow> bool" where
  \<comment> \<open>the local-name attribute the chain selects is not empty, or the id is empty\<close>
  "local_name_plain attrs =
     (selected_nonempty (dict_get attrs (lit ''data-name_zht''))
        (dict_get attrs (lit ''data-name_zh''))
      \<or> dict_get_default attrs (lit ''id'') [] = [])"

definition plain_node :: "pydict \<Rightarrow> bool" where
  "plain_node attrs = (list_all plain_attr attrs \<and> local_name_plain attrs)"

definition name_ok :: "pystr \<Rightarrow> bool" where
  \<comment> \<open>what the proofs use of an attribute name the extractors read\<close>
  "name_ok name = (name \<noteq> [] \<and> hd name \<notin> set (lit ''<path'') \<and> hd name \<noteq> 32
     \<and> 61 \<notin> set name \<and> 34 \<notin> set name \<and> hd name \<noteq> 62)"

section \<open>Sample inputs\<close>

text \<open>
  Two lists of nodes: the two nodes \<^verbatim>\<open><path id="XYZ"/>\<close> and
  \<^verbatim>\<open><path data-type="Lake"/>\<close>, and the three nodes of the scenarios of the
  specification. A list of nodes gives an environment of two files: \<^verbatim>\<open>good.svg\<close>
  holds the well-formed document of the nodes, and every other path holds their
  malformed text, which the parser refuses. Every write succeeds.
\<close>

definition small_nodes :: "pydict list" where
  "small_nodes = [[(lit ''id'', lit ''XYZ'')], [(lit ''data-type'', lit ''Lake'')]]"

definition sample_nodes :: "pydict list" where
  "sample_nodes =
     [[(lit ''id'', lit ''CHN''), (lit ''data-name_zht'', [20013, 22269]),
       (lit ''data-name_en'', lit ''China''), (lit ''data-type'', lit ''Sovereign country''),
       (lit ''data-sovereignt'', lit ''China'')],
      [(lit ''data-type'', lit ''Lake'')],
      [(lit ''id'', lit ''XYZ'')]]"

definition two_files :: "pydict list \<Rightarrow> env" where
  "two_files nodes =
     \<lparr> et_parse = (\<lambda>p. if p = lit ''good.svg'' then Parsed (wellformed_doc nodes)
                         else ParseError),
       read_text = (\<lambda>p. if p = lit ''good.svg'' then Inr (wellformed_text nodes)
                          else Inr (malformed_text nodes)),
       write_text = (\<lambda>p t. None) \<rparr>"

text \<open>
  The three sample nodes in a document of another shape: the tags are in the SVG
  namespace and two of the nodes lie inside a group. Its attribute data are the sample
  nodes.
\<close>

definition svg_ns :: "string \<Rightarrow> pystr" where
  \<comment> \<open>a tag in the SVG namespace, as the parser reports it\<close>
  "svg_ns name = lit ''{http://www.w3.org/2000/svg}'' @ lit name"

definition nested_root :: element where
  \<comment> \<open>the sample nodes in a document with the SVG namespace, the first two inside a
      group\<close>
  "nested_root = Element (svg_ns ''svg'') []
     [Element (svg_ns ''g'') [(lit ''id'', lit ''asia'')]
        [Element (svg_ns ''path'') (sample_nodes ! 0) [],
         Element (svg_ns ''path'') (sample_nodes ! 1) []],
      Element (svg_ns ''path'') (sample_nodes ! 2) []]"

definition nested_text :: pystr where
  "nested_text =
     lit ''<svg xmlns='' @ [34] @ lit ''http://www.w3.org/2000/svg'' @ [34, 62]
     @ lit ''<g id='' @ [34] @ lit ''asia'' @ [34, 62]
     @ closed_tag (sample_nodes ! 0) @ closed_tag (sample_nodes ! 1) @ lit ''</g>''
     @ closed_tag (sample_nodes ! 2) @ lit ''</svg>''"

definition nested_files :: env where
  \<comment> \<open>\<^verbatim>\<open>good.svg\<close> holds the nested document, every other path the malformed text of
      its attribute data\<close>
  "nested_files =
     \<lparr> et_parse = (\<lambda>p. if p = lit ''good.svg'' then Parsed nested_root else ParseError),
       read_text = (\<lambda>p. if p = lit ''good.svg'' then Inr nested_text
                          else Inr (malformed_text sample_nodes)),
       write_text = (\<lambda>p t. None) \<rparr>"

definition chn_attrs :: pydict where
  \<comment> \<open>\<^verbatim>\<open>id="CHN" data-name_zht="..."\<close>, the name being the two code points of the
      Chinese name of China\<close>
  "chn_attrs = [(lit ''id'', lit ''CHN''), (lit ''data-name_zht'', [20013, 22269])]"

text \<open>
  Four nodes on which the two extractors part: a local-name attribute that is there
  but empty, an attribute whose name ends in \<^verbatim>\<open>id\<close>, a value that holds a
  greater-than sign, and a value that ends in \<^verbatim>\<open>id=\<close>.
\<close>

definition empty_zht_attrs :: pydict where
  \<comment> \<open>\<^verbatim>\<open>data-name_zht="" data-name_zh="..." id="X"\<close>, the second value being the two
      code points of the Chinese name of China\<close>
  "empty_zht_attrs =
     [(lit ''data-name_zht'', []), (lit ''data-name_zh'', [20013, 22269]),
      (lit ''id'', lit ''X'')]"

definition empty_zht_node :: element where
  "empty_zht_node = Element (lit ''path'') empty_zht_attrs []"

definition grid_attrs :: pydict where
  "grid_attrs = [(lit ''data-grid'', lit ''5''), (lit ''id'', lit ''CHN'')]"

definition gt_attrs :: pydict where
  "gt_attrs = [(lit ''id'', lit ''A''), (lit ''data-name_en'', lit ''x>y'')]"

definition eq_attrs :: pydict where
  "eq_attrs = [(lit ''data-name_en'', lit ''id=''), (lit ''data-type'', lit ''T'')]"

definition id_only_node :: element where
  \<comment> \<open>\<^verbatim>\<open><path id="X"/>\<close>\<close>
  "id_only_node = Element (lit ''path'') [(lit ''id'', lit ''X'')] []"

definition id_only_tag :: pystr where
  \<comment> \<open>\<^verbatim>\<open><path id="X">\<close>\<close>
  "id_only_tag = lit ''<path id='' @ [34] @ lit ''X'' @ [34, 62]"

definition missing_file_env :: env where
  \<comment> \<open>no file at any path: \<^verbatim>\<open>ET.parse\<close> and \<^verbatim>\<open>open\<close> raise FileNotFoundError\<close>
  "missing_file_env =
     \<lparr> et_parse = (\<lambda>p. OtherError (lit ''[Errno 2] No such file or directory'')),
       read_text = (\<lambda>p. Inl (lit ''[Errno 2] No such file or directory'')),
       write_text = (\<lambda>p t. None) \<rparr>"

section \<open>Properties of the extractors\<close>

subsection \<open>Dictionaries\<close>

lemma map_of_dict_set: "map_of (dict_set d k v) k' = (if k' = k then Some v else map_of d k')"
  by (induction d) auto

lemma dict_get_set: "dict_get (dict_set d k v) k' = (if k' = k then Some v else dict_get d k')"
  by (simp add: dict_get_def map_of_dict_set)

lemma dict_get_set_if_match:
  "dict_get (set_if_match d k m) k' = (if k' = k \<and> m \<noteq> None then m else dict_get d k')"
  by (cases m) (simp_all add: set_if_match_def dict_get_set)

lemma dict_get_Nil: "dict_get [] k = None"
  by (simp add: dict_get_def)

lemma dict_get_default_Nil: "dict_get_default [] k dflt = dflt"
  by (simp add: dict_get_default_def)

lemma dict_get_default_get:
  "dict_get_default d k dflt = (case dict_get d k of Some v \<Rightarrow> v | None \<Rightarrow> dflt)"
  by (simp add: dict_get_default_def dict_get_def)

lemma truthy_dict_get: "truthy (dict_get d k) = (dict_get_default d k [] \<noteq> [])"
  by (simp add: truthy_def dict_get_def dict_get_default_def split: option.splits)

lemma lit_eq_iff: "lit a = lit b \<longleftrightarrow> a = b"
proof -
  have "inj (of_char :: char \<Rightarrow> nat)" by (rule injI) simp
  then show ?thesis by (simp add: lit_def inj_map_eq_map)
qed

lemma takeWhile_until: "c \<notin> set v \<Longrightarrow> takeWhile (\<lambda>x. x \<noteq> c) (v @ c # r) = v"
  by (induction v) auto

lemma quoted_value_closed: "34 \<notin> set v \<Longrightarrow> quoted_value (v @ 34 # r) = Some v"
  by (simp add: quoted_value_def takeWhile_until)

subsection \<open>The fields of an extracted record\<close>

lemma svg_get_id: "dict_get (svg_country_info e) (lit ''id'') = Some (et_get e (lit ''id'') [])"
  by (simp add: svg_country_info_def Let_def dict_get_def dict_get_default_def lit_eq_iff)

lemma svg_get_name_zh:
  "dict_get (svg_country_info e) (lit ''name_zh'') =
     Some (let n = et_get e (lit ''data-name_zht'') (et_get e (lit ''data-name_zh'') [])
           in if n = [] \<and> et_get e (lit ''id'') [] \<noteq> [] then et_get e (lit ''id'') [] else n)"
  by (simp add: svg_country_info_def Let_def dict_get_def dict_get_default_def lit_eq_iff)

lemma regex_get_id:
  "dict_get (regex_country_info t) (lit ''id'') = re_search_attr (lit ''id'') t"
  by (simp add: regex_country_info_def Let_def dict_get_set_if_match dict_get_set lit_eq_iff
      dict_get_Nil split: option.split)

lemma regex_get_name_zh:
  "dict_get (regex_country_info t) (lit ''name_zh'') =
    (case re_search_attr (lit ''data-name_zht'') t of
       Some v \<Rightarrow> Some v
     | None \<Rightarrow>
        (case re_search_attr (lit ''data-name_zh'') t of
           Some v \<Rightarrow> Some v
         | None \<Rightarrow>
            (case re_search_attr (lit ''id'') t of
               Some v \<Rightarrow> if v \<noteq> [] then Some v else None
             | None \<Rightarrow> None)))"
  by (simp add: regex_country_info_def Let_def dict_get_set_if_match dict_get_set lit_eq_iff
      dict_get_Nil truthy_def dict_get_default_get split: option.split)

lemma regex_get_name_en:
  "dict_get (regex_country_info t) (lit ''name_en'') = re_search_attr (lit ''data-name_en'') t"
  by (simp add: regex_country_info_def Let_def dict_get_set_if_match dict_get_set lit_eq_iff
      dict_get_Nil split: option.split)

lemma regex_get_formal_en:
  "dict_get (regex_country_info t) (lit ''formal_en'') = re_search_attr (lit ''data-formal_en'') t"
  by (simp add: regex_country_info_def Let_def dict_get_set_if_match dict_get_set lit_eq_iff
      dict_get_Nil split: option.split)

lemma regex_get_type:
  "dict_get (regex_country_info t) (lit ''type'') = re_search_attr (lit ''data-type'') t"
  by (simp add: regex_country_info_def Let_def dict_get_set_if_match dict_get_set lit_eq_iff
      dict_get_Nil split: option.split)

lemma regex_get_sovereignty:
  "dict_get (regex_country_info t) (lit ''sovereignty'') =
     re_search_attr (lit ''data-sovereignt'') t"
  by (simp add: regex_country_info_def Let_def dict_get_set_if_match dict_get_set lit_eq_iff
      dict_get_Nil split: option.split)

lemma svg_record:
  "svg_country_info e =
     [(lit ''id'', et_get e (lit ''id'') []),
      (lit ''name_zh'',
         (let n = et_get e (lit ''data-name_zht'') (et_get e (lit ''data-name_zh'') [])
          in if n = [] \<and> et_get e (lit ''id'') [] \<noteq> [] then et_get e (lit ''id'') [] else n)),
      (lit ''name_en'', et_get e (lit ''data-name_en'') []),
      (lit ''formal_en'', et_get e (lit ''data-formal_en'') []),
      (lit ''type'', et_get e (lit ''data-type'') []),
      (lit ''sovereignty'', et_get e (lit ''data-sovereignt'') [])]"
  by (simp add: svg_country_info_def Let_def lit_eq_iff dict_get_default_def)

subsection \<open>The filter\<close>

lemma svg_loop_filter:
  "svg_loop paths acc = acc @ filter has_name (map svg_country_info paths)"
  by (induction paths arbitrary: acc) (simp_all add: Let_def truthy_dict_get has_name_def)

lemma regex_loop_filter:
  "regex_loop tags acc = acc @ filter has_name (map regex_country_info tags)"
  by (induction tags arbitrary: acc) (simp_all add: Let_def truthy_dict_get has_name_def)

lemma regex_extract_named: "r \<in> set (snd (extract_countries_with_regex e p)) \<Longrightarrow> has_name r"
  by (auto simp: extract_countries_with_regex_def regex_loop_filter split: sum.splits)

subsection \<open>The reporter and the tabular writer\<close>

lemma str_nat_digit: "n < 10 \<Longrightarrow> str_nat n = [48 + n]"
  by (simp add: str_nat.simps)

lemma table_rows_enumerate:
  "table_rows i countries = map (\<lambda>(j, country). table_row j country) (enumerate i countries)"
  by (induction countries arbitrary: i) simp_all

lemma csv_write_rows_concat:
  "csv_write_rows countries out =
     out @ concat (map (\<lambda>c. dict_writer_row csv_fields (csv_row c)) countries)"
  by (induction countries arbitrary: out) simp_all

lemma dict_writer_row_cells:
  "dict_writer_row csv_fields (csv_row c) =
     csv_line [dict_get_default c (lit ''id'') [], dict_get_default c (lit ''name_zh'') [],
               dict_get_default c (lit ''name_en'') [], dict_get_default c (lit ''formal_en'') [],
               dict_get_default c (lit ''type'') [], dict_get_default c (lit ''sovereignty'') []]"
  by (simp add: dict_writer_row_def csv_row_def csv_fields_def lit_eq_iff
      dict_get_default_def [of "_ # _"])

lemma main_exit:
  "snd (snd (main e)) =
     (case et_parse e svg_file_path of OtherError err \<Rightarrow> ExitUncaught err | _ \<Rightarrow> ExitNormal)"
  by (simp add: main_def extract_countries_from_svg_def Let_def
      split: parse_result.splits prod.splits sum.splits)

subsection \<open>The structured writer and the reader\<close>

lemma jrun_append:
  "jrun s (a @ b) = (case jrun s a of None \<Rightarrow> None | Some s' \<Rightarrow> jrun s' b)"
  by (induction a arbitrary: s) (simp_all split: option.splits)

lemma jrun_spaces: "ws_loop s \<Longrightarrow> jrun s (replicate n 32 @ rest) = jrun s rest"
  by (induction n) (simp_all add: ws_loop_def)

lemma jrun_newline_indent: "ws_loop s \<Longrightarrow> jrun s (newline_indent n @ rest) = jrun s rest"
  using jrun_spaces [of s "2 * n" rest] by (simp add: newline_indent_def ws_loop_def)

lemma ws_loops:
  "ws_loop J_ListOpen" "ws_loop (J_BeforeDict recs)" "ws_loop (J_DictOpen recs)"
  "ws_loop (J_BeforeKey recs d)" "ws_loop (J_AfterValue recs d)" "ws_loop (J_AfterDict recs)"
  by (simp_all add: ws_loop_def is_ws_def)

lemma hex_value_digit: "d < 16 \<Longrightarrow> hex_value (hex_digit d) = Some d"
  by (auto simp: hex_value_def hex_digit_def)

lemma str_run_append:
  "str_run acc st (a @ b) =
     (case str_run acc st a of None \<Rightarrow> None | Some (acc', st') \<Rightarrow> str_run acc' st' b)"
  by (induction a arbitrary: acc st) (simp_all split: str_step.splits)

lemma str_run_escape_char: "str_run acc Plain (json_escape_char c) = Some (acc @ [c], Plain)"
proof (cases "c < 32 \<and> c \<notin> {8, 9, 10, 12, 13}")
  case True
  then have e: "json_escape_char c = [92, 117, 48, 48, hex_digit (c div 16), hex_digit (c mod 16)]"
    by (auto simp: json_escape_char_def)
  from True have "c < 32" by simp
  then have "c div 16 < 16" by presburger
  moreover have "c mod 16 < 16" by simp
  ultimately have h: "hex_value (hex_digit (c div 16)) = Some (c div 16)"
    "hex_value (hex_digit (c mod 16)) = Some (c mod 16)"
    by (simp_all add: hex_value_digit)
  have z: "hex_value 48 = Some 0" by (simp add: hex_value_def)
  from True show ?thesis by (simp add: e h z)
next
  case False
  then show ?thesis
    by (auto simp: json_escape_char_def)
qed

lemma str_run_escape: "str_run acc Plain (concat (map json_escape_char s)) = Some (acc @ s, Plain)"
  by (induction s arbitrary: acc) (simp_all add: str_run_append str_run_escape_char)

lemma key_run:
  "str_run acc st xs = Some (acc', st') \<Longrightarrow>
   jrun (J_InKey recs d acc st) (xs @ rest) = jrun (J_InKey recs d acc' st') rest"
  by (induction xs arbitrary: acc st) (auto split: str_step.splits)

lemma value_run:
  "str_run acc st xs = Some (acc', st') \<Longrightarrow>
   jrun (J_InValue recs d k acc st) (xs @ rest) = jrun (J_InValue recs d k acc' st') rest"
  by (induction xs arbitrary: acc st) (auto split: str_step.splits)

lemma key_string:
  "jrun (J_InKey recs d [] Plain) (tl (json_string k) @ rest) = jrun (J_AfterKey recs d k) rest"
  using key_run [OF str_run_escape, of recs d "[]" k "34 # rest"]
  by (simp add: json_string_def)

lemma value_string:
  "jrun (J_InValue recs d k [] Plain) (tl (json_string v) @ rest) =
   jrun (J_AfterValue recs (dict_set d k v)) rest"
  using value_run [OF str_run_escape, of recs d k "[]" v "34 # rest"]
  by (simp add: json_string_def)

lemma json_string_Cons: "json_string s = 34 # tl (json_string s)"
  by (simp add: json_string_def)

lemma item_run:
  "jrun (J_InKey recs d [] Plain) (tl (json_string k) @ [58, 32] @ json_string v @ rest) =
   jrun (J_AfterValue recs (dict_set d k v)) rest"
proof -
  have "jrun (J_InKey recs d [] Plain) (tl (json_string k) @ [58, 32] @ json_string v @ rest) =
      jrun (J_AfterKey recs d k) ([58, 32] @ json_string v @ rest)"
    by (rule key_string)
  also have "\<dots> = jrun (J_InValue recs d k [] Plain) (tl (json_string v) @ rest)"
    by (subst json_string_Cons) (simp add: is_ws_def)
  also have "\<dots> = jrun (J_AfterValue recs (dict_set d k v)) rest"
    by (rule value_string)
  finally show ?thesis .
qed

lemma items_run:
  "jrun (J_AfterValue recs d) (json_dict_items lvl False items @ rest) =
   jrun (J_AfterValue recs (foldl (\<lambda>d (k, v). dict_set d k v) d items)) rest"
proof (induction items arbitrary: d)
  case Nil
  show ?case by simp
next
  case (Cons kv items)
  obtain k v where kv: "kv = (k, v)" by (cases kv)
  have "jrun (J_AfterValue recs d) (json_dict_items lvl False (kv # items) @ rest) =
      jrun (J_BeforeKey recs d)
        (newline_indent lvl @ json_string k @ [58, 32] @ json_string v
           @ json_dict_items lvl False items @ rest)"
    by (simp add: kv is_ws_def)
  also have "\<dots> = jrun (J_BeforeKey recs d)
        (json_string k @ [58, 32] @ json_string v @ json_dict_items lvl False items @ rest)"
    by (rule jrun_newline_indent) (rule ws_loops)
  also have "\<dots> = jrun (J_InKey recs d [] Plain)
        (tl (json_string k) @ [58, 32] @ json_string v @ json_dict_items lvl False items @ rest)"
    by (subst json_string_Cons) (simp add: is_ws_def)
  also have "\<dots> = jrun (J_AfterValue recs (dict_set d k v))
        (json_dict_items lvl False items @ rest)"
    by (rule item_run)
  also have "\<dots> = jrun (J_AfterValue recs (foldl (\<lambda>d (k, v). dict_set d k v) d (kv # items))) rest"
    by (simp add: Cons.IH kv)
  finally show ?case .
qed

lemma dict_run:
  "jrun (J_DictOpen recs) (tl (json_dict lvl dct) @ rest) =
   jrun (J_AfterDict (recs @ [rebuild dct])) rest"
proof (cases dct)
  case Nil
  then show ?thesis by (simp add: json_dict_def rebuild_def is_ws_def)
next
  case (Cons kv items)
  obtain k v where kv: "kv = (k, v)" by (cases kv)
  have "jrun (J_DictOpen recs) (tl (json_dict lvl dct) @ rest) =
      jrun (J_DictOpen recs) (newline_indent (lvl + 1) @ json_string k @ [58, 32] @ json_string v
        @ json_dict_items (lvl + 1) False items @ newline_indent lvl @ [125] @ rest)"
    by (simp add: json_dict_def Cons kv)
  also have "\<dots> = jrun (J_DictOpen recs) (json_string k @ [58, 32] @ json_string v
        @ json_dict_items (lvl + 1) False items @ newline_indent lvl @ [125] @ rest)"
    by (rule jrun_newline_indent) (rule ws_loops)
  also have "\<dots> = jrun (J_InKey recs [] [] Plain) (tl (json_string k) @ [58, 32] @ json_string v
        @ json_dict_items (lvl + 1) False items @ newline_indent lvl @ [125] @ rest)"
    by (subst json_string_Cons) (simp add: is_ws_def)
  also have "\<dots> = jrun (J_AfterValue recs (dict_set [] k v))
        (json_dict_items (lvl + 1) False items @ newline_indent lvl @ [125] @ rest)"
    by (rule item_run)
  also have "\<dots> = jrun (J_AfterValue recs (rebuild dct)) (newline_indent lvl @ [125] @ rest)"
    by (simp add: items_run rebuild_def Cons kv)
  also have "\<dots> = jrun (J_AfterValue recs (rebuild dct)) ([125] @ rest)"
    by (rule jrun_newline_indent) (rule ws_loops)
  also have "\<dots> = jrun (J_AfterDict (recs @ [rebuild dct])) rest"
    by (simp add: is_ws_def)
  finally show ?thesis .
qed

lemma json_dict_Cons: "json_dict lvl dct = 123 # tl (json_dict lvl dct)"
  by (simp add: json_dict_def)

lemma list_items_run:
  "jrun (J_AfterDict recs) (json_list_items lvl False items @ rest) =
   jrun (J_AfterDict (recs @ map rebuild items)) rest"
proof (induction items arbitrary: recs)
  case Nil
  show ?case by simp
next
  case (Cons dct items)
  have "jrun (J_AfterDict recs) (json_list_items lvl False (dct # items) @ rest) =
      jrun (J_BeforeDict recs) (newline_indent lvl @ json_dict lvl dct
        @ json_list_items lvl False items @ rest)"
    by (simp add: is_ws_def)
  also have "\<dots> = jrun (J_BeforeDict recs) (json_dict lvl dct
        @ json_list_items lvl False items @ rest)"
    by (rule jrun_newline_indent) (rule ws_loops)
  also have "\<dots> = jrun (J_DictOpen recs) (tl (json_dict lvl dct)
        @ json_list_items lvl False items @ rest)"
    by (subst json_dict_Cons) (simp add: is_ws_def)
  also have "\<dots> = jrun (J_AfterDict (recs @ [rebuild dct])) (json_list_items lvl False items @ rest)"
    by (rule dict_run)
  also have "\<dots> = jrun (J_AfterDict (recs @ map rebuild (dct # items))) rest"
    by (simp add: Cons.IH)
  finally show ?case .
qed

lemma json_loads_dumps: "json_loads (json_dumps lst) = Some (map rebuild lst)"
proof (cases lst)
  case Nil
  then show ?thesis by (simp add: json_loads_def json_dumps_def is_ws_def)
next
  case (Cons dct items)
  have "jrun J_Start (json_dumps lst) =
      jrun J_ListOpen (newline_indent 1 @ json_dict 1 dct @ json_list_items 1 False items
        @ newline_indent 0 @ [93])"
    by (simp add: json_dumps_def Cons is_ws_def)
  also have "\<dots> = jrun J_ListOpen (json_dict 1 dct @ json_list_items 1 False items
        @ newline_indent 0 @ [93])"
    by (rule jrun_newline_indent) (rule ws_loops)
  also have "\<dots> = jrun (J_DictOpen []) (tl (json_dict 1 dct) @ json_list_items 1 False items
        @ newline_indent 0 @ [93])"
    by (subst json_dict_Cons) (simp add: is_ws_def)
  also have "\<dots> = jrun (J_AfterDict ([] @ [rebuild dct])) (json_list_items 1 False items
        @ newline_indent 0 @ [93])"
    by (rule dict_run)
  also have "\<dots> = jrun (J_AfterDict (map rebuild lst)) (newline_indent 0 @ [93])"
    by (simp add: list_items_run Cons)
  also have "\<dots> = jrun (J_AfterDict (map rebuild lst)) [93]"
    using jrun_newline_indent [OF ws_loops(6), of "map rebuild lst" 0 "[93]"] by simp
  also have "\<dots> = Some (J_Done (map rebuild lst))"
    by (simp add: is_ws_def)
  finally show ?thesis by (simp add: json_loads_def)
qed

lemma dict_set_fresh: "k \<notin> fst ` set d \<Longrightarrow> dict_set d k v = d @ [(k, v)]"
  by (induction d) auto

lemma foldl_dict_set_distinct:
  "distinct (map fst (d @ items)) \<Longrightarrow> foldl (\<lambda>d (k, v). dict_set d k v) d items = d @ items"
proof (induction items arbitrary: d)
  case Nil
  show ?case by simp
next
  case (Cons kv items)
  obtain k v where kv: "kv = (k, v)" by (cases kv)
  from Cons.prems have "k \<notin> fst ` set d" by (auto simp: kv)
  then have "dict_set d k v = d @ [(k, v)]" by (rule dict_set_fresh)
  moreover from Cons.prems have "distinct (map fst ((d @ [(k, v)]) @ items))" by (simp add: kv)
  ultimately show ?case using Cons.IH [of "d @ [(k, v)]"] by (simp add: kv)
qed

lemma rebuild_distinct: "distinct (map fst d) \<Longrightarrow> rebuild d = d"
  using foldl_dict_set_distinct [of "[]" d] by (simp add: rebuild_def)

lemma map_fst_dict_set:
  "map fst (dict_set d k v) = (if k \<in> fst ` set d then map fst d else map fst d @ [k])"
  by (induction d) (fastforce simp: image_iff)+

lemma keys_dict_set: "fst ` set (dict_set d k v) = insert k (fst ` set d)"
  using arg_cong [OF map_fst_dict_set [of d k v], of set] by auto

lemma keys_set_if_match: "fst ` set (set_if_match d k m) \<subseteq> insert k (fst ` set d)"
  by (cases m) (auto simp: set_if_match_def keys_dict_set)

lemma svg_keys: "map fst (svg_country_info e) = csv_fields"
  by (simp add: svg_country_info_def Let_def csv_fields_def lit_eq_iff dict_get_default_def)

lemma regex_keys: "fst ` set (regex_country_info t) \<subseteq> set csv_fields"
proof -
  let ?K = "set csv_fields"
  have step: "fst ` set d \<subseteq> ?K \<Longrightarrow> k \<in> ?K \<Longrightarrow> fst ` set (set_if_match d k m) \<subseteq> ?K" for d k m
    using keys_set_if_match [of d k m] by (metis insert_subset subset_trans)
  have step2: "fst ` set d \<subseteq> ?K \<Longrightarrow> k \<in> ?K \<Longrightarrow> fst ` set (dict_set d k v) \<subseteq> ?K" for d k v
    by (simp add: keys_dict_set)
  have k: "lit ''id'' \<in> ?K" "lit ''name_zh'' \<in> ?K" "lit ''name_en'' \<in> ?K"
    "lit ''formal_en'' \<in> ?K" "lit ''type'' \<in> ?K" "lit ''sovereignty'' \<in> ?K"
    by (simp_all add: csv_fields_def)
  show ?thesis
    unfolding regex_country_info_def Let_def
    by (intro step step2 k | simp split: option.split | intro conjI impI allI)+
qed

lemma join_Cons: "join sep (x # xs) = x @ concat (map (\<lambda>y. sep @ y) xs)"
  by (induction xs arbitrary: x) simp_all

lemma json_dict_items_rest:
  "json_dict_items lvl False items =
     concat (map (\<lambda>kv. (44 # newline_indent lvl) @ (case kv of (k, v) \<Rightarrow>
        json_string k @ [58, 32] @ json_string v)) items)"
  by (induction items) auto

lemma json_list_items_rest:
  "json_list_items lvl False items =
     concat (map (\<lambda>d. (44 # newline_indent lvl) @ json_dict lvl d) items)"
  by (induction items) auto

lemma json_dict_closed:
  "json_dict 1 dct =
     (if dct = [] then [123, 125]
      else [123, 10, 32, 32, 32, 32]
           @ join [44, 10, 32, 32, 32, 32]
               (map (\<lambda>(k, v). json_string k @ [58, 32] @ json_string v) dct)
           @ [10, 32, 32, 125])"
proof (cases dct)
  case Nil
  then show ?thesis by (simp add: json_dict_def)
next
  case (Cons kv items)
  have n: "newline_indent (Suc (Suc 0)) = [10, 32, 32, 32, 32]"
    "newline_indent (Suc 0) = [10, 32, 32]"
    by (simp_all add: newline_indent_def numeral_eq_Suc)
  show ?thesis
    by (cases kv) (simp add: Cons json_dict_def join_Cons json_dict_items_rest n
        map_map comp_def case_prod_beta)
qed

lemma json_dumps_closed:
  "json_dumps countries =
     (if countries = [] then [91, 93]
      else [91, 10, 32, 32] @ join [44, 10, 32, 32] (map (json_dict 1) countries) @ [10, 93])"
proof (cases countries)
  case Nil
  then show ?thesis by (simp add: json_dumps_def)
next
  case (Cons d items)
  have n: "newline_indent 0 = [10]" "newline_indent (Suc 0) = [10, 32, 32]"
    by (simp_all add: newline_indent_def numeral_eq_Suc)
  show ?thesis
    by (simp add: Cons json_dumps_def join_Cons json_list_items_rest n map_map comp_def)
qed

lemma json_string_plain:
  "\<forall>c \<in> set s. 32 \<le> c \<and> c \<noteq> 34 \<and> c \<noteq> 92 \<Longrightarrow> json_string s = [34] @ s @ [34]"
proof -
  assume a: "\<forall>c \<in> set s. 32 \<le> c \<and> c \<noteq> 34 \<and> c \<noteq> 92"
  then have "concat (map json_escape_char s) = s"
    by (induction s) (auto simp: json_escape_char_def)
  then show ?thesis by (simp add: json_string_def)
qed

subsection \<open>The patterns on the text rendering\<close>

lemma first_delimiter:
  "c \<notin> set A \<Longrightarrow> c \<notin> set B \<Longrightarrow> prefix (A @ c # p) (B @ c # t) \<Longrightarrow> A = B"
proof (induction A arbitrary: B)
  case Nil
  then show ?case by (cases B) auto
next
  case (Cons a A)
  then show ?case by (cases B) auto
qed

lemma search_skip_char:
  "name \<noteq> [] \<Longrightarrow> hd name \<noteq> c \<Longrightarrow> re_search_attr name (c # s) = re_search_attr name s"
  by (cases name) simp_all

lemma search_skip_chars:
  "name \<noteq> [] \<Longrightarrow> hd name \<notin> set a \<Longrightarrow> re_search_attr name (a @ s) = re_search_attr name s"
  by (induction a) (simp_all add: search_skip_char del: re_search_attr.simps)

lemma search_skip_name:
  assumes "61 \<notin> set name" and "61 \<notin> set k" and "\<not> suffix name k"
  shows "re_search_attr name (k @ 61 # 34 # s) = re_search_attr name (61 # 34 # s)"
  using assms(2,3)
proof (induction k)
  case Nil
  show ?case by simp
next
  case (Cons c k)
  have "\<not> prefix (name @ [61, 34]) ((c # k) @ 61 # 34 # s)"
  proof
    assume "prefix (name @ [61, 34]) ((c # k) @ 61 # 34 # s)"
    with assms(1) Cons.prems(1) have "name = c # k"
      using first_delimiter [of 61 name "c # k" "[34]" "34 # s"] by simp
    with Cons.prems(2) show False by simp
  qed
  moreover from Cons.prems have "61 \<notin> set k" "\<not> suffix name k"
    by (auto simp: suffix_Cons)
  ultimately show ?case using Cons.IH by simp
qed

lemma search_skip_value:
  assumes "34 \<notin> set name" and "34 \<notin> set v" and "\<not> suffix [61] v"
  shows "re_search_attr name (v @ 34 # s) = re_search_attr name (34 # s)"
  using assms(2,3)
proof (induction v)
  case Nil
  show ?case by simp
next
  case (Cons c v)
  have "\<not> prefix (name @ [61, 34]) ((c # v) @ 34 # s)"
  proof
    assume "prefix (name @ [61, 34]) ((c # v) @ 34 # s)"
    with assms(1) Cons.prems(1) have "name @ [61] = c # v"
      using first_delimiter [of 34 "name @ [61]" "c # v" "[]" s] by simp
    then have "suffix [61] (c # v)" by (metis suffixI)
    with Cons.prems(2) show False by simp
  qed
  moreover from Cons.prems have "34 \<notin> set v" "\<not> suffix [61] v"
    by (auto simp: suffix_Cons)
  ultimately show ?case using Cons.IH by simp
qed

lemma search_match:
  assumes "name \<noteq> []" and "34 \<notin> set v"
  shows "re_search_attr name (name @ 61 # 34 # v @ 34 # s) = Some v"
proof -
  obtain c cs where n: "name = c # cs" using assms(1) by (cases name) auto
  have "drop (length name + 2) (name @ 61 # 34 # v @ 34 # s) = v @ 34 # s" by simp
  moreover have "prefix (name @ [61, 34]) (name @ 61 # 34 # v @ 34 # s)" by simp
  ultimately show ?thesis
    using quoted_value_closed [OF assms(2), of s] by (simp add: n)
qed

lemma attr_names_ok: "list_all name_ok attr_names"
  by (simp add: attr_names_def name_ok_def lit_def)

lemma search_attrs:
  assumes n: "name_ok name"
    and a: "\<forall>kv \<in> set attrs. (case kv of (k, v) \<Rightarrow>
       61 \<notin> set k \<and> 34 \<notin> set v \<and> \<not> suffix [61] v \<and> (suffix name k \<longrightarrow> k = name))"
  shows "re_search_attr name (concat (map render_attr attrs) @ [62]) = map_of attrs name"
  using a
proof (induction attrs)
  case Nil
  from n show ?case by (cases name) (auto simp: name_ok_def)
next
  case (Cons kv attrs)
  obtain k v where kv: "kv = (k, v)" by (cases kv)
  let ?rest = "concat (map render_attr attrs) @ [62]"
  from n have ne: "name \<noteq> []" and h32: "hd name \<noteq> 32" and h61: "hd name \<noteq> 61"
    and h34: "hd name \<noteq> 34" and n61: "61 \<notin> set name" and n34: "34 \<notin> set name"
    by (cases name; auto simp: name_ok_def)+
  from Cons.prems have k61: "61 \<notin> set k" and v34: "34 \<notin> set v" and v61: "\<not> suffix [61] v"
    and suf: "suffix name k \<longrightarrow> k = name"
    by (auto simp: kv)
  have start: "re_search_attr name (concat (map render_attr (kv # attrs)) @ [62]) =
      re_search_attr name (k @ 61 # 34 # v @ 34 # ?rest)"
    by (simp add: kv render_attr_def search_skip_char [OF ne h32] del: re_search_attr.simps)
  show ?case
  proof (cases "k = name")
    case True
    then show ?thesis
      using search_match [OF ne v34, of ?rest] by (subst start) (simp add: kv)
  next
    case False
    with suf have ns: "\<not> suffix name k" by blast
    have "re_search_attr name (k @ 61 # 34 # v @ 34 # ?rest) =
        re_search_attr name (61 # 34 # v @ 34 # ?rest)"
      by (rule search_skip_name [OF n61 k61 ns])
    also have "\<dots> = re_search_attr name (v @ 34 # ?rest)"
      by (simp add: search_skip_char [OF ne h61] search_skip_char [OF ne h34]
          del: re_search_attr.simps)
    also have "\<dots> = re_search_attr name (34 # ?rest)"
      by (rule search_skip_value [OF n34 v34 v61])
    also have "\<dots> = re_search_attr name ?rest"
      by (rule search_skip_char [OF ne h34])
    also have "\<dots> = map_of attrs name"
      using Cons.prems by (intro Cons.IH) simp
    finally have "re_search_attr name (k @ 61 # 34 # v @ 34 # ?rest) = map_of attrs name" .
    then show ?thesis using False by (subst start) (simp add: kv)
  qed
qed

lemma search_tag:
  assumes "name_ok name"
    and "\<forall>kv \<in> set attrs. (case kv of (k, v) \<Rightarrow>
       61 \<notin> set k \<and> 34 \<notin> set v \<and> \<not> suffix [61] v \<and> (suffix name k \<longrightarrow> k = name))"
  shows "re_search_attr name (render_tag attrs) = map_of attrs name"
proof -
  from assms(1) have "name \<noteq> []" "hd name \<notin> set (lit ''<path'')"
    by (simp_all add: name_ok_def)
  then have "re_search_attr name (render_tag attrs) =
      re_search_attr name (concat (map render_attr attrs) @ [62])"
    unfolding render_tag_def by (rule search_skip_chars)
  with search_attrs [OF assms] show ?thesis by simp
qed

lemma search_plain_tag:
  assumes "list_all plain_attr attrs" and "name \<in> set attr_names"
  shows "re_search_attr name (render_tag attrs) = dict_get attrs name"
proof -
  from assms(2) attr_names_ok have "name_ok name" by (simp add: list_all_iff)
  moreover have "\<forall>kv \<in> set attrs. (case kv of (k, v) \<Rightarrow>
       61 \<notin> set k \<and> 34 \<notin> set v \<and> \<not> suffix [61] v \<and> (suffix name k \<longrightarrow> k = name))"
    using assms by (auto simp: list_all_iff plain_attr_def)
  ultimately show ?thesis by (simp add: search_tag dict_get_def)
qed

lemma match_needs_lt: "c \<noteq> 60 \<Longrightarrow> match_path_tag (c # s) = None"
  by (cases s; simp add: match_path_tag_def lit_def ci_eq_def)

lemma findall_skip: "60 \<notin> set a \<Longrightarrow> re_findall_path (a @ s) = re_findall_path s"
proof (induction a)
  case Nil
  show ?case by simp
next
  case (Cons c a)
  then have "match_path_tag (c # a @ s) = None" by (simp add: match_needs_lt)
  then have "re_findall_path ((c # a) @ s) = re_findall_path (a @ s)"
    by (subst re_findall_path.simps) simp
  with Cons show ?case by simp
qed

lemma no_gt_attrs:
  "\<forall>kv \<in> set attrs. (case kv of (k, v) \<Rightarrow> 62 \<notin> set k \<and> 62 \<notin> set v) \<Longrightarrow>
   62 \<notin> set (concat (map render_attr attrs))"
  by (induction attrs) (auto simp: render_attr_def)

lemma render_attrs_Cons:
  "attrs \<noteq> [] \<Longrightarrow> \<exists>r. concat (map render_attr attrs) = 32 # r"
  by (cases attrs) (auto simp: render_attr_def)

lemma match_tag:
  assumes "attrs \<noteq> []"
    and "\<forall>kv \<in> set attrs. (case kv of (k, v) \<Rightarrow> 62 \<notin> set k \<and> 62 \<notin> set v)"
  shows "match_path_tag (render_tag attrs @ s) = Some (render_tag attrs)"
proof -
  let ?body = "concat (map render_attr attrs)"
  from assms(1) obtain r where r: "?body = 32 # r" using render_attrs_Cons by blast
  from assms(2) have ngt: "62 \<notin> set ?body" by (rule no_gt_attrs)
  have t5: "take 5 (render_tag attrs @ s) = lit ''<path''"
    and d5: "drop 5 (render_tag attrs @ s) = ?body @ 62 # s"
    by (simp_all add: render_tag_def lit_def)
  have tw: "takeWhile (\<lambda>c. c \<noteq> 62) (?body @ 62 # s) = ?body"
    using ngt by (rule takeWhile_until)
  have c5: "list_all2 ci_eq (lit ''<path'') (lit ''<path'')"
    by (simp add: lit_def ci_eq_def)
  have sp: "is_space (hd (?body @ 62 # s))" "?body @ 62 # s \<noteq> []"
    by (simp_all add: r is_space_def)
  show ?thesis
    unfolding match_path_tag_def Let_def t5 d5 tw
    using c5 sp by (simp add: render_tag_def)
qed

lemma findall_tag:
  assumes "attrs \<noteq> []"
    and "\<forall>kv \<in> set attrs. (case kv of (k, v) \<Rightarrow> 62 \<notin> set k \<and> 62 \<notin> set v)"
  shows "re_findall_path (render_tag attrs @ s) = render_tag attrs # re_findall_path s"
proof -
  have "render_tag attrs @ s \<noteq> []" by (simp add: render_tag_def)
  then show ?thesis
    by (subst re_findall_path.simps) (simp add: match_tag [OF assms])
qed

lemma findall_empty_tag: "re_findall_path (render_tag [] @ s) = re_findall_path s"
proof -
  have "match_path_tag (render_tag [] @ s) = None"
    by (simp add: match_path_tag_def render_tag_def lit_def is_space_def)
  then have "re_findall_path (render_tag [] @ s) = re_findall_path (lit ''path>'' @ s)"
    by (subst re_findall_path.simps) (simp add: render_tag_def lit_def)
  also have "\<dots> = re_findall_path s"
    by (rule findall_skip) (simp add: lit_def)
  finally show ?thesis .
qed

lemma findall_tags:
  assumes "\<forall>attrs \<in> set nodes. list_all plain_attr attrs"
  shows "re_findall_path (concat (map render_tag nodes)) =
     map render_tag (filter (\<lambda>attrs. attrs \<noteq> []) nodes)"
  using assms
proof (induction nodes)
  case Nil
  show ?case by (subst re_findall_path.simps) simp
next
  case (Cons attrs nodes)
  show ?case
  proof (cases "attrs = []")
    case True
    with Cons show ?thesis by (simp add: findall_empty_tag)
  next
    case False
    from Cons.prems have "\<forall>kv \<in> set attrs. (case kv of (k, v) \<Rightarrow> 62 \<notin> set k \<and> 62 \<notin> set v)"
      by (auto simp: list_all_iff plain_attr_def)
    with False Cons show ?thesis by (simp add: findall_tag)
  qed
qed

lemma findall_malformed_text:
  assumes "\<forall>attrs \<in> set nodes. list_all plain_attr attrs"
  shows "re_findall_path (malformed_text nodes) =
     map render_tag (filter (\<lambda>attrs. attrs \<noteq> []) nodes)"
proof -
  have "match_path_tag (lit ''<svg>'' @ s) = None" for s
    by (simp add: match_path_tag_def lit_def ci_eq_def)
  then have "re_findall_path (malformed_text nodes) =
      re_findall_path (lit ''svg>'' @ concat (map render_tag nodes))"
    unfolding malformed_text_def
    by (subst re_findall_path.simps) (simp add: lit_def)
  also have "\<dots> = re_findall_path (concat (map render_tag nodes))"
    by (rule findall_skip) (simp add: lit_def)
  finally show ?thesis by (simp add: findall_tags [OF assms])
qed

lemma svg_paths_wellformed:
  "svg_paths (wellformed_doc nodes) = map (\<lambda>attrs. Element (lit ''path'') attrs []) nodes"
proof -
  have "concat (map iter (map (\<lambda>attrs. Element (lit ''path'') attrs []) nodes)) =
      map (\<lambda>attrs. Element (lit ''path'') attrs []) nodes"
    by (induction nodes) simp_all
  then have "et_findall (wellformed_doc nodes) (lit ''path'') =
      map (\<lambda>attrs. Element (lit ''path'') attrs []) nodes"
    by (simp add: et_findall_def wellformed_doc_def filter_map comp_def)
  then show ?thesis
    by (cases nodes) (simp_all add: svg_paths_def Let_def et_findall_def wellformed_doc_def)
qed

lemma csv_row_cells:
  "csv_row r =
     [(lit ''id'', dict_get_default r (lit ''id'') []),
      (lit ''name_zh'', dict_get_default r (lit ''name_zh'') []),
      (lit ''name_en'', dict_get_default r (lit ''name_en'') []),
      (lit ''formal_en'', dict_get_default r (lit ''formal_en'') []),
      (lit ''type'', dict_get_default r (lit ''type'') []),
      (lit ''sovereignty'', dict_get_default r (lit ''sovereignty'') [])]"
  by (simp add: csv_row_def csv_fields_def)

lemma in_attr_names:
  "lit ''id'' \<in> set attr_names" "lit ''data-name_zht'' \<in> set attr_names"
  "lit ''data-name_zh'' \<in> set attr_names" "lit ''data-name_en'' \<in> set attr_names"
  "lit ''data-formal_en'' \<in> set attr_names" "lit ''data-type'' \<in> set attr_names"
  "lit ''data-sovereignt'' \<in> set attr_names"
  by (simp_all add: attr_names_def)

lemma records_agree:
  assumes "plain_node attrs"
  shows "csv_row (regex_country_info (render_tag attrs)) =
         svg_country_info (Element (lit ''path'') attrs [])"
proof -
  let ?r = "regex_country_info (render_tag attrs)"
  let ?e = "Element (lit ''path'') attrs []"
  from assms have p: "list_all plain_attr attrs" and l: "local_name_plain attrs"
    by (simp_all add: plain_node_def)
  note s = search_plain_tag [OF p]
  have c1: "dict_get_default ?r (lit ''id'') [] = et_get ?e (lit ''id'') []"
    by (simp add: dict_get_default_get regex_get_id s in_attr_names et_get_def)
  have c2: "dict_get_default ?r (lit ''name_zh'') [] =
      (let n = et_get ?e (lit ''data-name_zht'') (et_get ?e (lit ''data-name_zh'') [])
       in if n = [] \<and> et_get ?e (lit ''id'') [] \<noteq> [] then et_get ?e (lit ''id'') [] else n)"
    using l
    by (auto simp: dict_get_default_get regex_get_name_zh s in_attr_names et_get_def
        local_name_plain_def selected_nonempty_def Let_def split: option.splits)
  have c3: "dict_get_default ?r (lit ''name_en'') [] = et_get ?e (lit ''data-name_en'') []"
    by (simp add: dict_get_default_get regex_get_name_en s in_attr_names et_get_def)
  have c4: "dict_get_default ?r (lit ''formal_en'') [] = et_get ?e (lit ''data-formal_en'') []"
    by (simp add: dict_get_default_get regex_get_formal_en s in_attr_names et_get_def)
  have c5: "dict_get_default ?r (lit ''type'') [] = et_get ?e (lit ''data-type'') []"
    by (simp add: dict_get_default_get regex_get_type s in_attr_names et_get_def)
  have c6: "dict_get_default ?r (lit ''sovereignty'') [] = et_get ?e (lit ''data-sovereignt'') []"
    by (simp add: dict_get_default_get regex_get_sovereignty s in_attr_names et_get_def)
  show ?thesis
    by (simp only: csv_row_cells svg_record c1 c2 c3 c4 c5 c6)
qed

lemma has_name_csv_row: "has_name (csv_row r) = has_name r"
  by (simp add: has_name_def csv_row_cells dict_get_default_def [of "_ # _"] lit_eq_iff)

lemma no_attrs_no_name: "\<not> has_name (svg_country_info (Element t [] cs))"
  by (simp add: has_name_def svg_record et_get_def dict_get_default_def lit_eq_iff)

lemma filtered_records_agree:
  assumes "\<forall>attrs \<in> set nodes. plain_node attrs"
  shows "map csv_row (filter has_name (map regex_country_info
            (map render_tag (filter (\<lambda>attrs. attrs \<noteq> []) nodes)))) =
         filter has_name (map svg_country_info
            (map (\<lambda>attrs. Element (lit ''path'') attrs []) nodes))"
  using assms
proof (induction nodes)
  case Nil
  show ?case by simp
next
  case (Cons attrs nodes)
  then have p: "plain_node attrs" by simp
  show ?case
  proof (cases "attrs = []")
    case True
    with Cons show ?thesis by (simp add: no_attrs_no_name)
  next
    case False
    have "has_name (regex_country_info (render_tag attrs)) =
        has_name (svg_country_info (Element (lit ''path'') attrs []))"
      using records_agree [OF p] has_name_csv_row by metis
    with False Cons show ?thesis by (simp add: records_agree [OF p])
  qed
qed

lemma sample_nodes_plain: "\<forall>attrs \<in> set sample_nodes. plain_node attrs"
  by (simp add: sample_nodes_def plain_node_def plain_attr_def local_name_plain_def
      attr_names_def selected_nonempty_def dict_get_def dict_get_default_def lit_def
      suffix_Cons)

lemma small_nodes_svg_records:
  "svg_loop (svg_paths (wellformed_doc small_nodes)) [] =
     [[(lit ''id'', lit ''XYZ''), (lit ''name_zh'', lit ''XYZ''), (lit ''name_en'', []),
       (lit ''formal_en'', []), (lit ''type'', []), (lit ''sovereignty'', [])]]"
  by code_simp

lemma small_nodes_regex_records:
  "regex_loop (re_findall_path (malformed_text small_nodes)) [] =
     [[(lit ''id'', lit ''XYZ''), (lit ''name_zh'', lit ''XYZ'')]]"
  by code_simp

lemma small_nodes_good:
  "extract_countries_from_svg (two_files small_nodes) (lit ''good.svg'') =
     Inr ([], [[(lit ''id'', lit ''XYZ''), (lit ''name_zh'', lit ''XYZ''), (lit ''name_en'', []),
                (lit ''formal_en'', []), (lit ''type'', []), (lit ''sovereignty'', [])]])"
  by (simp add: extract_countries_from_svg_def two_files_def small_nodes_svg_records)

lemma small_nodes_bad:
  "extract_countries_with_regex (two_files small_nodes) (lit ''bad.svg'') =
     ([], [[(lit ''id'', lit ''XYZ''), (lit ''name_zh'', lit ''XYZ'')]])"
  by (simp add: extract_countries_with_regex_def two_files_def small_nodes_regex_records
      lit_eq_iff)

subsection \<open>Documents of any shape\<close>

lemma svg_country_info_attrib:
  "svg_country_info e = svg_country_info (Element (lit ''path'') (attrib e) [])"
  by (simp add: svg_record et_get_def Let_def)

lemma filtered_records_agree_paths:
  assumes "\<forall>el \<in> set paths. plain_node (attrib el)"
  shows "map csv_row (filter has_name (map regex_country_info
            (map render_tag (filter (\<lambda>attrs. attrs \<noteq> []) (map attrib paths))))) =
         filter has_name (map svg_country_info paths)"
proof -
  have m: "map svg_country_info
        (map (\<lambda>attrs. Element (lit ''path'') attrs []) (map attrib paths)) =
      map svg_country_info paths"
    by (induction paths) (simp_all add: svg_country_info_attrib [symmetric])
  from assms have p: "\<forall>attrs \<in> set (map attrib paths). plain_node attrs"
    by simp
  show ?thesis
    using filtered_records_agree [OF p] unfolding m .
qed

lemma nested_root_paths:
  "svg_paths nested_root =
     [Element (svg_ns ''path'') (sample_nodes ! 0) [],
      Element (svg_ns ''path'') (sample_nodes ! 1) [],
      Element (svg_ns ''path'') (sample_nodes ! 2) []]"
proof -
  have a: "lit ''{http://www.w3.org/2000/svg}'' @ lit n = lit (''{http://www.w3.org/2000/svg}'' @ n)" for n
    by (simp add: lit_def)
  show ?thesis
    by (simp add: svg_paths_def Let_def et_findall_def nested_root_def svg_ns_def a lit_eq_iff)
qed

lemma nested_root_nodes: "map attrib (svg_paths nested_root) = sample_nodes"
  by (simp add: nested_root_paths) (simp add: sample_nodes_def)

subsection \<open>The local name and the fields of a fallback record\<close>

lemma regex_name_follows_chain:
  "dict_get_default (regex_country_info t) (lit ''name_zh'') [] =
     fallback_chain (re_search_attr (lit ''data-name_zht'') t)
       (re_search_attr (lit ''data-name_zh'') t)
       (dict_get_default (regex_country_info t) (lit ''id'') [])"
  by (auto simp add: regex_get_name_zh regex_get_id fallback_chain_def dict_get_default_get
      split: option.splits)

lemma svg_name_follows_chain:
  assumes "selected_nonempty (dict_get (attrib e) (lit ''data-name_zht''))
             (dict_get (attrib e) (lit ''data-name_zh''))
           \<or> et_get e (lit ''id'') [] = []"
  shows "dict_get (svg_country_info e) (lit ''name_zh'') =
     Some (fallback_chain (dict_get (attrib e) (lit ''data-name_zht''))
             (dict_get (attrib e) (lit ''data-name_zh'')) (et_get e (lit ''id'') []))"
  using assms
  by (auto simp add: svg_get_name_zh selected_nonempty_def fallback_chain_def et_get_def
      dict_get_default_get Let_def split: option.splits)

lemma regex_record:
  "regex_country_info t =
     (case re_search_attr (lit ''id'') t of None \<Rightarrow> [] | Some v \<Rightarrow> [(lit ''id'', v)])
     @ (case re_search_attr (lit ''data-name_zht'') t of
          Some v \<Rightarrow> [(lit ''name_zh'', v)]
        | None \<Rightarrow>
           (case re_search_attr (lit ''data-name_zh'') t of
              Some v \<Rightarrow> [(lit ''name_zh'', v)]
            | None \<Rightarrow>
               (case re_search_attr (lit ''id'') t of
                  Some v \<Rightarrow> if v \<noteq> [] then [(lit ''name_zh'', v)] else []
                | None \<Rightarrow> [])))
     @ (case re_search_attr (lit ''data-name_en'') t of
          None \<Rightarrow> [] | Some v \<Rightarrow> [(lit ''name_en'', v)])
     @ (case re_search_attr (lit ''data-formal_en'') t of
          None \<Rightarrow> [] | Some v \<Rightarrow> [(lit ''formal_en'', v)])
     @ (case re_search_attr (lit ''data-type'') t of
          None \<Rightarrow> [] | Some v \<Rightarrow> [(lit ''type'', v)])
     @ (case re_search_attr (lit ''data-sovereignt'') t of
          None \<Rightarrow> [] | Some v \<Rightarrow> [(lit ''sovereignty'', v)])"
  by (simp add: regex_country_info_def Let_def set_if_match_def truthy_def dict_get_def
      dict_get_default_def lit_eq_iff split: option.split)

subsection \<open>The report of types\<close>

lemma sorted_map_fst: "sorted (xs :: (pystr \<times> nat) list) \<Longrightarrow> sorted (map fst xs)"
  by (induction xs) (auto simp: less_eq_prod_def)

lemma type_report_sorted: "sorted (map fst (sort (type_counts_loop countries [])))"
  by (rule sorted_map_fst) simp

lemma type_counts_keys:
  "fst ` set (type_counts_loop countries tc) =
     fst ` set tc \<union> (\<lambda>c. dict_get_default c (lit ''type'') unknown_label) ` set countries"
  by (induction countries arbitrary: tc) (auto simp: keys_dict_set Let_def)

section \<open>Claim C1: the two extractors on the same attribute data\<close>

text \<open>
  C1 (as the claim states it, refuted). The two nodes \<^verbatim>\<open><path id="XYZ"/>\<close> and
  \<^verbatim>\<open><path data-type="Lake"/>\<close>, as a well-formed document in \<^verbatim>\<open>good.svg\<close> and as
  a malformed text in \<^verbatim>\<open>bad.svg\<close>: from the first the extractor returns one record
  with six fields, four of them empty strings, and from the second, through the
  fallback extractor, one record with the two fields \<^verbatim>\<open>id\<close> and \<^verbatim>\<open>name_zh\<close>.
  The values differ too on four kinds of node: with \<^verbatim>\<open>data-name_zht=""\<close> and an id
  the document extractor names the record by its id and the fallback extractor by the
  empty string; with \<^verbatim>\<open>data-grid="5" id="CHN"\<close> the ids are \<^verbatim>\<open>CHN\<close> and \<^verbatim>\<open>5\<close>;
  with the value \<^verbatim>\<open>x>y\<close> the tag the pattern matches ends inside the value and the
  English name is lost; with the value \<^verbatim>\<open>id=\<close> before another attribute the id
  pattern matches across the closing quote.
\<close>

theorem extractors_differ_counterexample:
  "extract_countries_from_svg (two_files small_nodes) (lit ''good.svg'') =
     Inr ([], [[(lit ''id'', lit ''XYZ''), (lit ''name_zh'', lit ''XYZ''), (lit ''name_en'', []),
                (lit ''formal_en'', []), (lit ''type'', []), (lit ''sovereignty'', [])]])
   \<and> extract_countries_from_svg (two_files small_nodes) (lit ''bad.svg'') =
     Inr ([msg_xml_failed], [[(lit ''id'', lit ''XYZ''), (lit ''name_zh'', lit ''XYZ'')]])
   \<and> dict_get (svg_country_info (Element (lit ''path'') empty_zht_attrs [])) (lit ''name_zh'') =
       Some (lit ''X'')
   \<and> dict_get (regex_country_info (render_tag empty_zht_attrs)) (lit ''name_zh'') = Some []
   \<and> dict_get (svg_country_info (Element (lit ''path'') grid_attrs [])) (lit ''id'') =
       Some (lit ''CHN'')
   \<and> dict_get (regex_country_info (render_tag grid_attrs)) (lit ''id'') = Some (lit ''5'')
   \<and> dict_get (svg_country_info (Element (lit ''path'') gt_attrs [])) (lit ''name_en'') =
       Some (lit ''x>y'')
   \<and> regex_loop (re_findall_path (malformed_text [gt_attrs])) [] =
       [[(lit ''id'', lit ''A''), (lit ''name_zh'', lit ''A'')]]
   \<and> dict_get (svg_country_info (Element (lit ''path'') eq_attrs [])) (lit ''id'') = Some []
   \<and> dict_get (regex_country_info (render_tag eq_attrs)) (lit ''id'') =
       Some (lit '' data-type='')"
proof -
  have "et_parse (two_files small_nodes) (lit ''bad.svg'') = ParseError"
    by (simp add: two_files_def lit_eq_iff)
  then have 2: "extract_countries_from_svg (two_files small_nodes) (lit ''bad.svg'') =
      Inr ([msg_xml_failed], [[(lit ''id'', lit ''XYZ''), (lit ''name_zh'', lit ''XYZ'')]])"
    by (simp add: extract_countries_from_svg_def small_nodes_bad)
  have 3: "dict_get (svg_country_info (Element (lit ''path'') empty_zht_attrs [])) (lit ''name_zh'') =
       Some (lit ''X'')"
    by (simp add: svg_get_name_zh et_get_def dict_get_default_def empty_zht_attrs_def
        lit_eq_iff)
  have "list_all plain_attr empty_zht_attrs"
    by (simp add: empty_zht_attrs_def plain_attr_def attr_names_def lit_def suffix_Cons)
  then have 4: "dict_get (regex_country_info (render_tag empty_zht_attrs)) (lit ''name_zh'') = Some []"
    by (simp add: regex_get_name_zh search_plain_tag in_attr_names)
       (simp add: dict_get_def empty_zht_attrs_def lit_eq_iff)
  have 5: "dict_get (svg_country_info (Element (lit ''path'') grid_attrs [])) (lit ''id'') =
       Some (lit ''CHN'')"
    by code_simp
  have 6: "dict_get (regex_country_info (render_tag grid_attrs)) (lit ''id'') = Some (lit ''5'')"
    by code_simp
  have 7: "dict_get (svg_country_info (Element (lit ''path'') gt_attrs [])) (lit ''name_en'') =
       Some (lit ''x>y'')"
    by code_simp
  have 8: "regex_loop (re_findall_path (malformed_text [gt_attrs])) [] =
       [[(lit ''id'', lit ''A''), (lit ''name_zh'', lit ''A'')]]"
    by code_simp
  have 9: "dict_get (svg_country_info (Element (lit ''path'') eq_attrs [])) (lit ''id'') = Some []"
    by code_simp
  have 10: "dict_get (regex_country_info (render_tag eq_attrs)) (lit ''id'') =
       Some (lit '' data-type='')"
    by code_simp
  from small_nodes_good 2 3 4 5 6 7 8 9 10 show ?thesis by (intro conjI)
qed

text \<open>
  C1 (amended). Take any document the parser accepts; its attribute data are the
  attribute lists of the path nodes the document extractor finds in it (the path
  elements below the root, those without a namespace or, when there is none, those in
  the SVG namespace), in document order. Let every attribute of these nodes be plain
  (\<open>plain_attr\<close>), and in every node let the selected local-name attribute be
  non-empty or the id be empty. Then the document extractor on the document and the
  fallback extractor, reached through the failed parse of the malformed rendering of
  the same attribute data, return the same records in the same order after the same
  filtering, once the fields a fallback record does not have are read as empty strings,
  as the tabular writer reads them.
\<close>

theorem extractors_agree_after_defaults:
  assumes "et_parse e p1 = Parsed root"
    and "et_parse e p2 = ParseError"
    and "read_text e p2 = Inr (malformed_text (map attrib (svg_paths root)))"
    and "\<forall>el \<in> set (svg_paths root). plain_node (attrib el)"
  shows "extract_countries_from_svg e p2 =
           Inr ([msg_xml_failed], snd (extract_countries_with_regex e p2))
         \<and> extract_countries_from_svg e p1 =
           Inr ([], map csv_row (snd (extract_countries_with_regex e p2)))"
proof -
  let ?nodes = "map attrib (svg_paths root)"
  from assms(4) have "\<forall>attrs \<in> set ?nodes. list_all plain_attr attrs"
    by (simp add: plain_node_def)
  then have f: "re_findall_path (malformed_text ?nodes) =
      map render_tag (filter (\<lambda>attrs. attrs \<noteq> []) ?nodes)"
    by (rule findall_malformed_text)
  have r: "extract_countries_with_regex e p2 =
      ([], filter has_name (map regex_country_info
            (map render_tag (filter (\<lambda>attrs. attrs \<noteq> []) ?nodes))))"
    by (simp only: extract_countries_with_regex_def assms(3) regex_loop_filter f
        sum.case append_Nil)
  have x: "extract_countries_from_svg e p1 =
      Inr ([], filter has_name (map svg_country_info (svg_paths root)))"
    by (simp add: extract_countries_from_svg_def assms(1) svg_loop_filter)
  have "extract_countries_from_svg e p2 =
      Inr ([msg_xml_failed], snd (extract_countries_with_regex e p2))"
    by (simp add: extract_countries_from_svg_def assms(2) r)
  moreover have "extract_countries_from_svg e p1 =
      Inr ([], map csv_row (snd (extract_countries_with_regex e p2)))"
    unfolding x r by (simp only: snd_conv filtered_records_agree_paths [OF assms(4)])
  ultimately show ?thesis by simp
qed

theorem extractors_agree_after_defaults_witness:
  "extract_countries_from_svg nested_files (lit ''bad.svg'') =
     Inr ([msg_xml_failed], snd (extract_countries_with_regex nested_files (lit ''bad.svg'')))
   \<and> extract_countries_from_svg nested_files (lit ''good.svg'') =
     Inr ([], map csv_row (snd (extract_countries_with_regex nested_files (lit ''bad.svg''))))"
proof (rule extractors_agree_after_defaults [where root = nested_root])
  show "et_parse nested_files (lit ''good.svg'') = Parsed nested_root"
    by (simp add: nested_files_def)
  show "et_parse nested_files (lit ''bad.svg'') = ParseError"
    by (simp add: nested_files_def lit_eq_iff)
  show "read_text nested_files (lit ''bad.svg'') =
      Inr (malformed_text (map attrib (svg_paths nested_root)))"
    by (simp add: nested_files_def lit_eq_iff nested_root_nodes)
  show "\<forall>el \<in> set (svg_paths nested_root). plain_node (attrib el)"
    using sample_nodes_plain nested_root_nodes
    by (metis (no_types, lifting) imageI list.set_map)
qed

section \<open>Claim C2: failures\<close>

text \<open>
  C2 (the code at the failing input). When the file is missing, \<^verbatim>\<open>ET.parse\<close> raises
  an exception that is not a ParseError; the extractor does not catch it, the fallback
  extractor is not called, and the program ends with the exception after its first line.
  (On every other answer of the parser the program ends normally: lemma \<open>main_exit\<close>.)
\<close>

theorem uncaught_when_file_missing:
  "extract_countries_from_svg missing_file_env svg_file_path =
     Inl (lit ''[Errno 2] No such file or directory'')
   \<and> main missing_file_env =
     ([msg_extracting], [], ExitUncaught (lit ''[Errno 2] No such file or directory''))"
  by (simp add: main_def extract_countries_from_svg_def missing_file_env_def)

section \<open>Claim C3: the records the extractors keep\<close>

text \<open>
  C3. In both extractors a record built from a node is returned exactly when its local
  name or its English name is non-empty after the fallback: the result is the records of
  the nodes, in order, filtered by that test, so no returned record has both names empty
  (on any path through the extractors), and nothing is printed while records are built
  or dropped.
\<close>

theorem retained_iff_named:
  "(\<forall>out recs. extract_countries_from_svg e p = Inr (out, recs) \<longrightarrow> (\<forall>r \<in> set recs. has_name r))
   \<and> (\<forall>r \<in> set (snd (extract_countries_with_regex e p)). has_name r)
   \<and> (\<forall>root. et_parse e p = Parsed root \<longrightarrow>
         extract_countries_from_svg e p =
           Inr ([], filter has_name (map svg_country_info (svg_paths root))))
   \<and> (\<forall>content. read_text e p = Inr content \<longrightarrow>
         extract_countries_with_regex e p =
           ([], filter has_name (map regex_country_info (re_findall_path content))))"
proof (intro conjI allI impI ballI)
  fix out recs r
  assume ex: "extract_countries_from_svg e p = Inr (out, recs)" and r: "r \<in> set recs"
  show "has_name r"
  proof (cases "et_parse e p")
    case ParseError
    with ex have "recs = snd (extract_countries_with_regex e p)"
      by (auto simp: extract_countries_from_svg_def split: prod.splits)
    with r show ?thesis by (simp add: regex_extract_named)
  next
    case (OtherError err)
    with ex show ?thesis by (simp add: extract_countries_from_svg_def)
  next
    case (Parsed root)
    with ex r show ?thesis by (auto simp: extract_countries_from_svg_def svg_loop_filter)
  qed
next
  fix r assume "r \<in> set (snd (extract_countries_with_regex e p))"
  then show "has_name r" by (rule regex_extract_named)
next
  fix root assume "et_parse e p = Parsed root"
  then show "extract_countries_from_svg e p =
      Inr ([], filter has_name (map svg_country_info (svg_paths root)))"
    by (simp add: extract_countries_from_svg_def svg_loop_filter)
next
  fix content assume "read_text e p = Inr content"
  then show "extract_countries_with_regex e p =
      ([], filter has_name (map regex_country_info (re_findall_path content)))"
    by (simp add: extract_countries_with_regex_def regex_loop_filter)
qed

theorem retained_iff_named_witness:
  "extract_countries_from_svg (two_files small_nodes) (lit ''good.svg'') =
     Inr ([], filter has_name (map svg_country_info (svg_paths (wellformed_doc small_nodes))))
   \<and> extract_countries_with_regex (two_files small_nodes) (lit ''bad.svg'') =
     ([], filter has_name (map regex_country_info (re_findall_path (malformed_text small_nodes))))
   \<and> filter has_name (map regex_country_info (re_findall_path (malformed_text small_nodes))) =
     [[(lit ''id'', lit ''XYZ''), (lit ''name_zh'', lit ''XYZ'')]]
   \<and> has_name [(lit ''id'', lit ''XYZ''), (lit ''name_zh'', lit ''XYZ'')]
   \<and> \<not> has_name (regex_country_info (render_tag [(lit ''data-type'', lit ''Lake'')]))"
proof -
  have p: "et_parse (two_files small_nodes) (lit ''good.svg'') =
      Parsed (wellformed_doc small_nodes)"
    and t: "read_text (two_files small_nodes) (lit ''bad.svg'') =
      Inr (malformed_text small_nodes)"
    by (simp_all add: two_files_def lit_eq_iff)
  have 1: "extract_countries_from_svg (two_files small_nodes) (lit ''good.svg'') =
      Inr ([], filter has_name (map svg_country_info (svg_paths (wellformed_doc small_nodes))))"
    using retained_iff_named [of "two_files small_nodes" "lit ''good.svg''"] p by blast
  have 2: "extract_countries_with_regex (two_files small_nodes) (lit ''bad.svg'') =
      ([], filter has_name (map regex_country_info
         (re_findall_path (malformed_text small_nodes))))"
    using retained_iff_named [of "two_files small_nodes" "lit ''bad.svg''"] t by blast
  have 3: "filter has_name (map regex_country_info
         (re_findall_path (malformed_text small_nodes))) =
      [[(lit ''id'', lit ''XYZ''), (lit ''name_zh'', lit ''XYZ'')]]"
    using small_nodes_regex_records by (simp add: regex_loop_filter)
  have 4: "has_name [(lit ''id'', lit ''XYZ''), (lit ''name_zh'', lit ''XYZ'')]"
    by code_simp
  have 5: "\<not> has_name (regex_country_info (render_tag [(lit ''data-type'', lit ''Lake'')]))"
    by code_simp
  from 1 2 3 4 5 show ?thesis by (intro conjI)
qed

section \<open>Claim C4: the fallback chain of the local name\<close>

text \<open>
  C4 (the code at the failing input). A node whose \<^verbatim>\<open>data-name_zht\<close> is there but
  empty, whose \<^verbatim>\<open>data-name_zh\<close> is a name and whose id is \<^verbatim>\<open>X\<close>: the document
  extractor gives it the local name \<^verbatim>\<open>X\<close>, the last link of the chain, although
  \<^verbatim>\<open>data-name_zh\<close>, an earlier link, is there and not empty; the fallback extractor
  on the same node keeps the empty value of \<^verbatim>\<open>data-name_zht\<close>. (The fallback
  extractor follows the chain on every tag, and the document extractor on every node
  whose selected attribute is not empty or whose id is empty: lemmas
  \<open>regex_name_follows_chain\<close> and \<open>svg_name_follows_chain\<close>.)
\<close>

theorem empty_zht_skips_name_zh:
  "dict_get (attrib empty_zht_node) (lit ''data-name_zht'') = Some []
   \<and> dict_get (attrib empty_zht_node) (lit ''data-name_zh'') = Some [20013, 22269]
   \<and> dict_get (attrib empty_zht_node) (lit ''id'') = Some (lit ''X'')
   \<and> dict_get (svg_country_info empty_zht_node) (lit ''name_zh'') = Some (lit ''X'')
   \<and> dict_get (regex_country_info (render_tag (attrib empty_zht_node))) (lit ''name_zh'') =
       Some []"
proof -
  have "list_all plain_attr empty_zht_attrs"
    by (simp add: empty_zht_attrs_def plain_attr_def attr_names_def lit_def suffix_Cons)
  then have "dict_get (regex_country_info (render_tag empty_zht_attrs)) (lit ''name_zh'') = Some []"
    by (simp add: regex_get_name_zh search_plain_tag in_attr_names)
       (simp add: dict_get_def empty_zht_attrs_def lit_eq_iff)
  then show ?thesis
    by (simp add: empty_zht_node_def)
       (simp add: svg_country_info_def Let_def et_get_def dict_get_def dict_get_default_def
          empty_zht_attrs_def lit_def)
qed

section \<open>Claim C5: the members of the structured output\<close>

text \<open>
  C5 (as the claim states it, refuted). The fallback extractor reads the text
  \<^verbatim>\<open><svg><path id="XYZ"><path data-type="Lake">\<close> of \<^verbatim>\<open>bad.svg\<close> into one record
  with the two keys \<^verbatim>\<open>id\<close> and \<^verbatim>\<open>name_zh\<close>, and the structured output of that
  record has these two members only, not the six fields. In a string the double quote,
  the backslash and the line feed are written escaped.
\<close>

theorem json_six_fields_counterexample:
  "extract_countries_with_regex (two_files small_nodes) (lit ''bad.svg'') =
     ([], [[(lit ''id'', lit ''XYZ''), (lit ''name_zh'', lit ''XYZ'')]])
   \<and> json_dumps [[(lit ''id'', lit ''XYZ''), (lit ''name_zh'', lit ''XYZ'')]] =
       [91, 10] @ lit ''  {'' @ [10]
       @ lit ''    '' @ [34] @ lit ''id'' @ [34] @ lit '': '' @ [34] @ lit ''XYZ'' @ [34, 44, 10]
       @ lit ''    '' @ [34] @ lit ''name_zh'' @ [34] @ lit '': '' @ [34] @ lit ''XYZ'' @ [34, 10]
       @ lit ''  }'' @ [10, 93]
   \<and> json_string (lit ''a'' @ [34, 92, 10] @ lit ''b'') =
       [34] @ lit ''a'' @ [92, 34, 92, 92, 92] @ lit ''nb'' @ [34]"
proof -
  have "json_dumps [[(lit ''id'', lit ''XYZ''), (lit ''name_zh'', lit ''XYZ'')]] =
       [91, 10] @ lit ''  {'' @ [10]
       @ lit ''    '' @ [34] @ lit ''id'' @ [34] @ lit '': '' @ [34] @ lit ''XYZ'' @ [34, 44, 10]
       @ lit ''    '' @ [34] @ lit ''name_zh'' @ [34] @ lit '': '' @ [34] @ lit ''XYZ'' @ [34, 10]
       @ lit ''  }'' @ [10, 93]"
    by code_simp
  moreover have "json_string (lit ''a'' @ [34, 92, 10] @ lit ''b'') =
       [34] @ lit ''a'' @ [92, 34, 92, 92, 92] @ lit ''nb'' @ [34]"
    by code_simp
  ultimately show ?thesis
    by (simp add: small_nodes_bad)
qed

text \<open>
  C5 (amended). When the write succeeds, the file \<^verbatim>\<open>save_to_json\<close> writes holds, for
  every record, exactly the members the record has, in the record's order, the records
  following each other in the order of the list; and a string whose code points are
  all at least 32 and are neither the double quote nor the backslash is written as it
  is, between double quotes, whatever its code points. A record of the document
  extractor has the six keys id, name_zh, name_en, formal_en, type and sovereignty, in
  this order. A record of the fallback extractor has, in the same order, the key id
  when the id pattern matched, the key name_zh when a local-name pattern matched or
  the matched id is not empty, and each of name_en, formal_en, type and sovereignty
  when its own pattern matched.
\<close>

theorem json_members_in_order:
  "(write_text e f (json_dumps countries) = None \<longrightarrow>
      save_to_json e countries f =
        ([msg_saved @ f],
         [(f, if countries = [] then [91, 93]
              else [91, 10, 32, 32] @ join [44, 10, 32, 32] (map (json_dict 1) countries)
                   @ [10, 93])]))
   \<and> json_dict 1 dct =
       (if dct = [] then [123, 125]
        else [123, 10, 32, 32, 32, 32]
             @ join [44, 10, 32, 32, 32, 32]
                 (map (\<lambda>(k, v). json_string k @ [58, 32] @ json_string v) dct)
             @ [10, 32, 32, 125])
   \<and> ((\<forall>c \<in> set s. 32 \<le> c \<and> c \<noteq> 34 \<and> c \<noteq> 92) \<longrightarrow> json_string s = [34] @ s @ [34])
   \<and> map fst (svg_country_info el) = csv_fields
   \<and> regex_country_info t =
       (case re_search_attr (lit ''id'') t of None \<Rightarrow> [] | Some v \<Rightarrow> [(lit ''id'', v)])
       @ (case re_search_attr (lit ''data-name_zht'') t of
            Some v \<Rightarrow> [(lit ''name_zh'', v)]
          | None \<Rightarrow>
             (case re_search_attr (lit ''data-name_zh'') t of
                Some v \<Rightarrow> [(lit ''name_zh'', v)]
              | None \<Rightarrow>
                 (case re_search_attr (lit ''id'') t of
                    Some v \<Rightarrow> if v \<noteq> [] then [(lit ''name_zh'', v)] else []
                  | None \<Rightarrow> [])))
       @ (case re_search_attr (lit ''data-name_en'') t of
            None \<Rightarrow> [] | Some v \<Rightarrow> [(lit ''name_en'', v)])
       @ (case re_search_attr (lit ''data-formal_en'') t of
            None \<Rightarrow> [] | Some v \<Rightarrow> [(lit ''formal_en'', v)])
       @ (case re_search_attr (lit ''data-type'') t of
            None \<Rightarrow> [] | Some v \<Rightarrow> [(lit ''type'', v)])
       @ (case re_search_attr (lit ''data-sovereignt'') t of
            None \<Rightarrow> [] | Some v \<Rightarrow> [(lit ''sovereignty'', v)])"
proof (intro conjI impI)
  assume "write_text e f (json_dumps countries) = None"
  then have "save_to_json e countries f = ([msg_saved @ f], [(f, json_dumps countries)])"
    by (simp add: save_to_json_def)
  then show "save_to_json e countries f =
        ([msg_saved @ f],
         [(f, if countries = [] then [91, 93]
              else [91, 10, 32, 32] @ join [44, 10, 32, 32] (map (json_dict 1) countries)
                   @ [10, 93])])"
    by (simp only: json_dumps_closed)
next
  show "json_dict 1 dct =
       (if dct = [] then [123, 125]
        else [123, 10, 32, 32, 32, 32]
             @ join [44, 10, 32, 32, 32, 32]
                 (map (\<lambda>(k, v). json_string k @ [58, 32] @ json_string v) dct)
             @ [10, 32, 32, 125])"
    by (rule json_dict_closed)
next
  assume "\<forall>c \<in> set s. 32 \<le> c \<and> c \<noteq> 34 \<and> c \<noteq> 92"
  then show "json_string s = [34] @ s @ [34]"
    by (rule json_string_plain)
next
  show "map fst (svg_country_info el) = csv_fields"
    by (rule svg_keys)
next
  show "regex_country_info t =
       (case re_search_attr (lit ''id'') t of None \<Rightarrow> [] | Some v \<Rightarrow> [(lit ''id'', v)])
       @ (case re_search_attr (lit ''data-name_zht'') t of
            Some v \<Rightarrow> [(lit ''name_zh'', v)]
          | None \<Rightarrow>
             (case re_search_attr (lit ''data-name_zh'') t of
                Some v \<Rightarrow> [(lit ''name_zh'', v)]
              | None \<Rightarrow>
                 (case re_search_attr (lit ''id'') t of
                    Some v \<Rightarrow> if v \<noteq> [] then [(lit ''name_zh'', v)] else []
                  | None \<Rightarrow> [])))
       @ (case re_search_attr (lit ''data-name_en'') t of
            None \<Rightarrow> [] | Some v \<Rightarrow> [(lit ''name_en'', v)])
       @ (case re_search_attr (lit ''data-formal_en'') t of
            None \<Rightarrow> [] | Some v \<Rightarrow> [(lit ''formal_en'', v)])
       @ (case re_search_attr (lit ''data-type'') t of
            None \<Rightarrow> [] | Some v \<Rightarrow> [(lit ''type'', v)])
       @ (case re_search_attr (lit ''data-sovereignt'') t of
            None \<Rightarrow> [] | Some v \<Rightarrow> [(lit ''sovereignty'', v)])"
    by (rule regex_record)
qed

theorem json_members_in_order_witness:
  "save_to_json (two_files small_nodes)
      [[(lit ''id'', lit ''CHN''), (lit ''name_zh'', [20013, 22269])]] (lit ''countries.json'') =
     ([msg_saved @ lit ''countries.json''],
      [(lit ''countries.json'',
        [91, 10] @ lit ''  {'' @ [10]
        @ lit ''    '' @ [34] @ lit ''id'' @ [34] @ lit '': '' @ [34] @ lit ''CHN'' @ [34, 44, 10]
        @ lit ''    '' @ [34] @ lit ''name_zh'' @ [34] @ lit '': '' @ [34, 20013, 22269, 34, 10]
        @ lit ''  }'' @ [10, 93])])
   \<and> regex_country_info (render_tag chn_attrs) =
       [(lit ''id'', lit ''CHN''), (lit ''name_zh'', [20013, 22269])]
   \<and> map fst (svg_country_info id_only_node) = csv_fields"
proof -
  let ?r = "[(lit ''id'', lit ''CHN''), (lit ''name_zh'', [20013, 22269 :: nat])]"
  note t = json_members_in_order [of "two_files small_nodes" "lit ''countries.json''" "[?r]"
      ?r "[20013, 22269]" id_only_node "render_tag chn_attrs"]
  have w: "write_text (two_files small_nodes) (lit ''countries.json'') (json_dumps [?r]) = None"
    by (simp add: two_files_def)
  from t w have 1: "save_to_json (two_files small_nodes) [?r] (lit ''countries.json'') =
      ([msg_saved @ lit ''countries.json''],
       [(lit ''countries.json'', [91, 10, 32, 32] @ json_dict 1 ?r @ [10, 93])])"
    by simp
  from t have 2: "json_dict 1 ?r =
      [123, 10, 32, 32, 32, 32]
      @ join [44, 10, 32, 32, 32, 32]
          (map (\<lambda>(k, v). json_string k @ [58, 32] @ json_string v) ?r)
      @ [10, 32, 32, 125]"
    by simp
  have p: "\<forall>c \<in> set [20013, 22269 :: nat]. 32 \<le> c \<and> c \<noteq> 34 \<and> c \<noteq> 92"
    by simp
  from t p have 3: "json_string [20013, 22269] = [34, 20013, 22269, 34]"
    by simp
  have 4: "json_string (lit ''id'') = [34] @ lit ''id'' @ [34]"
    "json_string (lit ''CHN'') = [34] @ lit ''CHN'' @ [34]"
    "json_string (lit ''name_zh'') = [34] @ lit ''name_zh'' @ [34]"
    by (rule json_string_plain, simp add: lit_def)+
  from t have 5: "map fst (svg_country_info id_only_node) = csv_fields"
    by simp
  have pl: "list_all plain_attr chn_attrs"
    by (simp add: chn_attrs_def plain_attr_def attr_names_def lit_def suffix_Cons)
  have s: "re_search_attr name (render_tag chn_attrs) = dict_get chn_attrs name"
    if "name \<in> set attr_names" for name
    using pl that by (rule search_plain_tag)
  note ss = in_attr_names [THEN s]
  have 6: "regex_country_info (render_tag chn_attrs) = ?r"
    by (subst conjunct2 [OF conjunct2 [OF conjunct2 [OF conjunct2 [OF t]]]])
       (simp only: ss, simp add: dict_get_def chn_attrs_def lit_eq_iff)
  show ?thesis
    unfolding 1 2 by (simp add: 3 4 5 6) (simp add: lit_def)
qed

section \<open>Claim C6: the report of types\<close>

text \<open>
  C6 (the code at the failing input). A record of the document extractor for a node
  without \<^verbatim>\<open>data-type\<close> has the type \<^verbatim>\<open>''\<close>, and the report counts it under the
  empty label; the same node read by the fallback extractor has no type key and is
  counted under the label for an unknown type. (The lines of the report do follow the
  order of their labels: lemma \<open>type_report_sorted\<close>.)
\<close>

theorem empty_type_not_unknown:
  "type_report [svg_country_info id_only_node] = [[32, 32, 58, 32, 49, 20010]]
   \<and> type_report [regex_country_info id_only_tag] =
     [[32, 32] @ unknown_label @ [58, 32, 49, 20010]]"
proof -
  have a: "dict_get_default (svg_country_info id_only_node) (lit ''type'') unknown_label = []"
    by (simp add: svg_country_info_def Let_def et_get_def dict_get_default_def lit_eq_iff
        id_only_node_def)
  have "re_search_attr (lit ''data-type'') id_only_tag = None"
    by (simp add: lit_def id_only_tag_def)
  then have b:
    "dict_get_default (regex_country_info id_only_tag) (lit ''type'') unknown_label = unknown_label"
    by (simp add: dict_get_default_get regex_get_type)
  show ?thesis
    by (simp add: type_report_def a b type_line_def str_nat_digit dict_get_default_Nil)
qed

section \<open>Claim C7: the columns of the tabular output\<close>

text \<open>
  C7. The text of the tabular file is the byte order mark, the header line with the six
  column names in their fixed order, and one line per record, in order, whose six
  cells are the record's values for those six keys, the empty string standing for a key
  the record does not have; when the write succeeds that text is the file.
\<close>

theorem csv_six_columns:
  "csv_text countries =
     [65279]
     @ csv_line [lit ''id'', lit ''name_zh'', lit ''name_en'', lit ''formal_en'', lit ''type'',
                 lit ''sovereignty'']
     @ concat (map (\<lambda>c. csv_line
         [dict_get_default c (lit ''id'') [], dict_get_default c (lit ''name_zh'') [],
          dict_get_default c (lit ''name_en'') [], dict_get_default c (lit ''formal_en'') [],
          dict_get_default c (lit ''type'') [], dict_get_default c (lit ''sovereignty'') []])
        countries)
   \<and> (write_text e f (csv_text countries) = None \<longrightarrow>
        snd (save_to_csv e countries f) = [(f, csv_text countries)])"
proof -
  have "csv_text countries = [65279] @ csv_line csv_fields
      @ concat (map (\<lambda>c. dict_writer_row csv_fields (csv_row c)) countries)"
    by (simp add: csv_text_def csv_write_rows_concat)
  then show ?thesis
    by (simp add: dict_writer_row_cells save_to_csv_def) (simp add: csv_fields_def)
qed

theorem csv_six_columns_witness:
  "snd (save_to_csv (two_files small_nodes) [[(lit ''id'', lit ''XYZ''), (lit ''name_zh'', lit ''XYZ'')]]
          (lit ''countries.csv'')) =
     [(lit ''countries.csv'',
       [65279] @ lit ''id,name_zh,name_en,formal_en,type,sovereignty'' @ [13, 10]
       @ lit ''XYZ,XYZ,,,,'' @ [13, 10])]"
proof -
  let ?cs = "[[(lit ''id'', lit ''XYZ''), (lit ''name_zh'', lit ''XYZ'')]]"
  have w: "write_text (two_files small_nodes) (lit ''countries.csv'') (csv_text ?cs) = None"
    by (simp add: two_files_def)
  have "csv_text ?cs = [65279] @ lit ''id,name_zh,name_en,formal_en,type,sovereignty'' @ [13, 10]
       @ lit ''XYZ,XYZ,,,,'' @ [13, 10]"
    by (simp add: conjunct1 [OF csv_six_columns])
       (simp add: csv_line_def csv_cell_def dict_get_default_def lit_def)
  with w csv_six_columns [of ?cs "two_files small_nodes" "lit ''countries.csv''"] show ?thesis
    by simp
qed

section \<open>Claim C8: the structured output read back\<close>

text \<open>
  C8. When the structured file is written, reading its text back gives the list of
  records that was written: the same records in the same order, each with the same keys
  and values in the same order, whatever code points the strings hold. The keys of a
  dictionary are distinct, and the write succeeds when the file can be opened and the
  text encoded.
\<close>

theorem json_round_trip:
  assumes "\<forall>d \<in> set countries. distinct (map fst d)"
    and "write_text e f (json_dumps countries) = None"
  shows "snd (save_to_json e countries f) = [(f, json_dumps countries)]
         \<and> json_loads (json_dumps countries) = Some countries"
proof -
  from assms(1) have "map rebuild countries = countries"
    by (induction countries) (simp_all add: rebuild_distinct)
  with assms(2) show ?thesis
    by (simp add: save_to_json_def json_loads_dumps)
qed

theorem json_round_trip_witness:
  "snd (save_to_json (two_files small_nodes)
          [[(lit ''id'', lit ''CHN''), (lit ''name_zh'', [20013, 22269]),
            (lit ''name_en'', [67, 104, 34, 92, 10, 1, 105])]]
          (lit ''countries.json'')) =
     [(lit ''countries.json'',
       json_dumps [[(lit ''id'', lit ''CHN''), (lit ''name_zh'', [20013, 22269]),
                    (lit ''name_en'', [67, 104, 34, 92, 10, 1, 105])]])]
   \<and> json_loads (json_dumps [[(lit ''id'', lit ''CHN''), (lit ''name_zh'', [20013, 22269]),
                                (lit ''name_en'', [67, 104, 34, 92, 10, 1, 105])]]) =
       Some [[(lit ''id'', lit ''CHN''), (lit ''name_zh'', [20013, 22269]),
              (lit ''name_en'', [67, 104, 34, 92, 10, 1, 105])]]"
  by (rule json_round_trip) (simp_all add: two_files_def lit_eq_iff)

section \<open>Claim C9: the id pattern\<close>

text \<open>
  C9. The fallback extractor takes the id from the first place of the tag where the
  text \<^verbatim>\<open>id="\<close> stands: in a tag \<^verbatim>\<open><path data-grid="v" id="w">\<close> that place is the
  end of the attribute name \<^verbatim>\<open>data-grid\<close>, and the extracted id is \<open>v\<close>, whatever the
  attribute named id holds.
\<close>

theorem regex_id_from_first_substring:
  assumes "34 \<notin> set v"
  shows "dict_get (regex_country_info
            (lit ''<path data-grid='' @ [34] @ v @ [34] @ lit '' id='' @ [34] @ w @ [34, 62]))
          (lit ''id'') = Some v"
  by (subst regex_get_id) (simp add: lit_def quoted_value_closed [OF assms])

theorem regex_id_from_first_substring_witness:
  "dict_get (regex_country_info
            (lit ''<path data-grid='' @ [34] @ lit ''5'' @ [34] @ lit '' id='' @ [34]
               @ lit ''CHN'' @ [34, 62]))
          (lit ''id'') = Some (lit ''5'')"
proof -
  have "34 \<notin> set (lit ''5'')" by (simp add: lit_def)
  from regex_id_from_first_substring [OF this, of "lit ''CHN''"] show ?thesis .
qed

section \<open>Claim C10: the display limit\<close>

text \<open>
  C10. With the display limit 0 the reporter prints what it prints with no limit: the
  count, the rule, the header, the rule, and one row for every record, numbered from 1;
  no line about omitted records follows.
\<close>

theorem limit_zero_is_no_limit:
  "print_countries_table countries (Some 0) = print_countries_table countries None
   \<and> print_countries_table countries (Some 0) =
       [msg_found (length countries), replicate 120 45, table_header, replicate 120 45]
       @ map (\<lambda>(i, country). table_row i country) (enumerate 1 countries)"
  by (simp add: print_countries_table_def limit_true_def table_rows_enumerate)

theorem limit_zero_is_no_limit_witness:
  "print_countries_table [[(lit ''id'', lit ''XYZ''), (lit ''name_zh'', lit ''XYZ'')]] (Some 0) =
     [msg_found 1, replicate 120 45, table_header, replicate 120 45,
      lit ''1    XYZ                                                                   '']"
proof -
  have r: "replicate (numeral k) x = x # replicate (pred_numeral k) x" for k and x :: nat
    by (simp add: numeral_eq_Suc)
  have "table_row 1 [(lit ''id'', lit ''XYZ''), (lit ''name_zh'', lit ''XYZ'')] =
      lit ''1    XYZ                                                                   ''"
    by (simp add: table_row_def ljust_def dict_get_default_def lit_def str_nat_digit r)
  then show ?thesis
    by (simp add: conjunct2 [OF limit_zero_is_no_limit])
qed

end
